theory Spec2Isabelle
  imports Complex_Main
begin

section \<open>piano-capture: MIDI playback with synchronised audio recording\<close>

text \<open>
  A shallow embedding of \<^verbatim>\<open>piano_capture/app.py\<close> (\<^verbatim>\<open>capture_performance\<close>, \<^verbatim>\<open>run\<close>) and of
  \<^verbatim>\<open>piano_capture/postprocess.py\<close> (\<^verbatim>\<open>process_wav_files\<close>).

  The program is a driver around four libraries (mido, sounddevice, soundfile, pathlib) and the
  clock. Their calls are modelled as steps on an explicit \<open>world\<close>; what a call does that the
  program cannot decide (whether it raises, how long it takes, what a MIDI file contains, what
  the microphone delivered) is read from an \<open>env\<close>, indexed by the number of library calls made
  so far. A Python exception is a value of \<open>exn\<close>; every function returns \<open>None\<close> for a normal
  return or \<open>Some x\<close> for the exception that leaves it. An operator interrupt is the
  \<open>KeyboardInterrupt\<close> that some library call raises: one between two calls is one at the
  start of the second.

  What the model leaves out or fixes:
  \<^item> A Python float is the rational it denotes. The sums and differences of the player loop
    and of the cooldown test are exact; the division of line 213 is rounded as Python rounds
    it (\<open>int_true_divide\<close>).
  \<^item> There is one clock, \<open>now\<close>: \<^verbatim>\<open>input_stream.time\<close> and \<^verbatim>\<open>time.time()\<close> read it and
    \<^verbatim>\<open>time.sleep\<close> moves it. That it does not go back, and that a sleep lasts at least as long
    as requested, is not built in: it is the hypothesis \<open>\<forall>k. 0 \<le> elapses e k\<close> of the
    theorems that need it.
  \<^item> \<^verbatim>\<open>print\<close>, the banner, the progress bar and the construction of the settings object of
    lines 77-79 touch no device and no file and are left out; \<^verbatim>\<open>exists()\<close> reads the file
    table of the world.
  \<^item> The recording callback runs on another thread; what it has put into \<^verbatim>\<open>audio_buffer\<close>
    when the write loop runs is given by the environment.
\<close>

subsection \<open>Data\<close>

type_synonym path = string
type_synonym block = "int list"

text \<open>
  \<open>KeyboardInterrupt\<close> and \<open>SystemExit\<close> derive from \<open>BaseException\<close> only; every other
  exception the libraries raise is an \<open>Exception\<close> and is kept by its class name.
\<close>

datatype exn = KeyboardInterrupt | SystemExit int | Error string

fun is_Exception :: "exn \<Rightarrow> bool" where
  "is_Exception (Error c) = True"
| "is_Exception _ = False"

text \<open>
  What iterating a \<open>mido.MidiFile\<close> yields: messages and meta messages, each with its delta
  \<open>time\<close> in seconds.
\<close>

datatype midi_msg =
    is_Message: Message (time: rat) (bytes: "nat list")
  | is_MetaMessage: MetaMessage (time: rat) (bytes: "nat list")

text \<open>
  What a run leaves in the trace: the library calls that returned, each with the instant at
  which it was made, and four marks of the batch loop that are no calls of their own: the
  beginning and the end of a forced rest (line 241) and the call and the return of
  \<^verbatim>\<open>capture_performance\<close> (line 256). \<open>Mkdir p\<close> is \<^verbatim>\<open>mkdir\<close> on the parent of \<open>p\<close>.
\<close>

datatype event =
    Midi_open string
  | Midi_send midi_msg
  | Midi_reset
  | Midi_close
  | Wav_open path int int
  | Wav_write path block
  | Wav_close path
  | Unlink path
  | Stream_open int int int "int list option"
  | Stream_close
  | Sleep rat
  | Rest_begin rat
  | Rest_end
  | Scan path
  | Realtime
  | Mkdir path
  | Session_begin path path
  | Session_end

record world =
  tick :: nat
  now :: rat
  files :: "path \<Rightarrow> block list option"
  file_closed :: bool
  port_closed :: bool
  trace :: "(rat \<times> event) list"

record env =
  raises :: "nat \<Rightarrow> exn option"
  elapses :: "nat \<Rightarrow> rat"
  midi_events :: "path \<Rightarrow> midi_msg list"
  audio_buffer :: "nat \<Rightarrow> block list"
  rglob :: "(path \<times> nat) list"
  derive :: "path \<Rightarrow> path \<Rightarrow> string \<Rightarrow> path \<Rightarrow> path"

text \<open>
  \<open>raises e k\<close> is the exception the \<open>k\<close>-th library call raises, if any (an operator
  interrupt is \<open>Some KeyboardInterrupt\<close>); \<open>elapses e k\<close> is the time that passes during that
  call, for a sleep the time beyond the requested duration. \<open>midi_events e p\<close> is what mido
  yields for the file at \<open>p\<close>; \<open>audio_buffer e k\<close> is the list the recording callback has filled
  when the write loop starts at call \<open>k\<close>; \<open>rglob e\<close> lists the MIDI files below the root with
  their sizes; \<open>derive e\<close> is the pathlib computation of lines 244-250 of app.py.
\<close>

definition since :: "world \<Rightarrow> world \<Rightarrow> (rat \<times> event) list" where
  "since w w' = drop (length (trace w)) (trace w')"

subsection \<open>Library calls\<close>

definition advance :: "env \<Rightarrow> rat \<Rightarrow> world \<Rightarrow> world" where
  "advance e d w = w\<lparr>tick := tick w + 1, now := now w + d + elapses e (tick w)\<rparr>"

definition record_event :: "rat \<Rightarrow> event \<Rightarrow> world \<Rightarrow> world" where
  "record_event t ev w = w\<lparr>trace := trace w @ [(t, ev)]\<rparr>"

text \<open>
  A library call: it raises what the environment says, and has no effect then; otherwise it is
  recorded with the instant at which it was made, and takes effect.
\<close>

definition call :: "env \<Rightarrow> event \<Rightarrow> (world \<Rightarrow> world) \<Rightarrow> world \<Rightarrow> exn option \<times> world" where
  "call e ev effect w =
     (case raises e (tick w) of
        Some x \<Rightarrow> (Some x, advance e 0 w)
      | None \<Rightarrow> (None, effect (record_event (now w) ev (advance e 0 w))))"

text \<open>\<^verbatim>\<open>input_stream.time\<close> and \<^verbatim>\<open>time.time()\<close>: a reading of the clock.\<close>

definition read_clock :: "env \<Rightarrow> world \<Rightarrow> (exn + rat) \<times> world" where
  "read_clock e w =
     (case raises e (tick w) of
        Some x \<Rightarrow> (Inl x, advance e 0 w)
      | None \<Rightarrow> (Inr (now (advance e 0 w)), advance e 0 w))"

text \<open>
  \<^verbatim>\<open>time.sleep(d)\<close>: a negative duration is a \<open>ValueError\<close>; an interrupt ends the sleep with the
  exception; otherwise the clock moves by \<open>d\<close> and by what the environment adds.
\<close>

definition sleep :: "env \<Rightarrow> rat \<Rightarrow> world \<Rightarrow> exn option \<times> world" where
  "sleep e d w =
     (if d < 0 then (Some (Error ''ValueError''), w)
      else case raises e (tick w) of
        Some x \<Rightarrow> (Some x, advance e 0 w)
      | None \<Rightarrow> (None, record_event (now w) (Sleep d) (advance e d w)))"

text \<open>\<^verbatim>\<open>MidiFile(input_midi_filepath)\<close>.\<close>

definition MidiFile :: "env \<Rightarrow> path \<Rightarrow> world \<Rightarrow> (exn + midi_msg list) \<times> world" where
  "MidiFile e p w =
     (case raises e (tick w) of
        Some x \<Rightarrow> (Inl x, advance e 0 w)
      | None \<Rightarrow> (Inr (midi_events e p), advance e 0 w))"

text \<open>
  \<^verbatim>\<open>file.close()\<close> and \<^verbatim>\<open>out_port.close()\<close>: both libraries make closing a closed handle a
  no-op, which is what lets the \<^verbatim>\<open>with\<close> blocks close again after the interrupt handler.
\<close>

definition close_file :: "env \<Rightarrow> path \<Rightarrow> world \<Rightarrow> exn option \<times> world" where
  "close_file e p w =
     (if file_closed w then (None, w)
      else call e (Wav_close p) (\<lambda>v. v\<lparr>file_closed := True\<rparr>) w)"

definition close_port :: "env \<Rightarrow> world \<Rightarrow> exn option \<times> world" where
  "close_port e w =
     (if port_closed w then (None, w)
      else call e Midi_close (\<lambda>v. v\<lparr>port_closed := True\<rparr>) w)"

text \<open>
  \<^verbatim>\<open>open_output(output_port_name)\<close>, \<^verbatim>\<open>sf.SoundFile(output_audio_filepath, mode="w", ...)\<close>, which
  creates or truncates the file, \<^verbatim>\<open>sd.InputStream(...)\<close> entered, and the stream's exit.
\<close>

definition open_output :: "env \<Rightarrow> string \<Rightarrow> world \<Rightarrow> exn option \<times> world" where
  "open_output e output_port_name w =
     call e (Midi_open output_port_name) (\<lambda>v. v\<lparr>port_closed := False\<rparr>) w"

definition SoundFile :: "env \<Rightarrow> path \<Rightarrow> int \<Rightarrow> int \<Rightarrow> world \<Rightarrow> exn option \<times> world" where
  "SoundFile e p sample_rate num_channels w =
     call e (Wav_open p sample_rate num_channels)
       (\<lambda>v. v\<lparr>files := (files v)(p \<mapsto> []), file_closed := False\<rparr>) w"

definition InputStream ::
  "env \<Rightarrow> int \<Rightarrow> int \<Rightarrow> int \<Rightarrow> int list option \<Rightarrow> world \<Rightarrow> exn option \<times> world" where
  "InputStream e input_audio_device sample_rate num_channels channel_map w =
     call e (Stream_open input_audio_device sample_rate num_channels channel_map) id w"

definition close_stream :: "env \<Rightarrow> world \<Rightarrow> exn option \<times> world" where
  "close_stream e w = call e Stream_close id w"

subsection \<open>The player loop (app.py, lines 105-116)\<close>

definition dispatch :: "env \<Rightarrow> midi_msg \<Rightarrow> world \<Rightarrow> exn option \<times> world" where
  "dispatch e msg w =
     (if is_MetaMessage msg then (None, w) else call e (Midi_send msg) id w)"

text \<open>One iteration, after \<^verbatim>\<open>input_time += msg.time\<close>.\<close>

definition player_step ::
  "env \<Rightarrow> rat \<Rightarrow> rat \<Rightarrow> midi_msg \<Rightarrow> world \<Rightarrow> exn option \<times> world" where
  "player_step e start_time input_time msg w =
     (case read_clock e w of
        (Inl x, w1) \<Rightarrow> (Some x, w1)
      | (Inr t, w1) \<Rightarrow>
          (let playback_time = t - start_time;
               duration_to_next_event = input_time - playback_time
           in if duration_to_next_event > 0
              then (case sleep e duration_to_next_event w1 of
                      (Some x, w2) \<Rightarrow> (Some x, w2)
                    | (None, w2) \<Rightarrow> dispatch e msg w2)
              else dispatch e msg w1))"

fun play :: "env \<Rightarrow> rat \<Rightarrow> rat \<Rightarrow> midi_msg list \<Rightarrow> world \<Rightarrow> exn option \<times> world" where
  "play e start_time input_time [] w = (None, w)"
| "play e start_time input_time (msg # mid) w =
     (case player_step e start_time (input_time + time msg) msg w of
        (Some x, w1) \<Rightarrow> (Some x, w1)
      | (None, w1) \<Rightarrow> play e start_time (input_time + time msg) mid w1)"

subsection \<open>The capture session (app.py, lines 57-132)\<close>

text \<open>\<^verbatim>\<open>for data in audio_buffer: file.write(data)\<close>.\<close>

definition append_block :: "path \<Rightarrow> block \<Rightarrow> world \<Rightarrow> world" where
  "append_block p data w =
     w\<lparr>files := (files w)(p \<mapsto> (case files w p of None \<Rightarrow> [] | Some bs \<Rightarrow> bs) @ [data])\<rparr>"

fun write_all :: "env \<Rightarrow> path \<Rightarrow> block list \<Rightarrow> world \<Rightarrow> exn option \<times> world" where
  "write_all e p [] w = (None, w)"
| "write_all e p (data # buf) w =
     (case call e (Wav_write p data) (append_block p data) w of
        (Some x, w1) \<Rightarrow> (Some x, w1)
      | (None, w1) \<Rightarrow> write_all e p buf w1)"

text \<open>The body of the \<^verbatim>\<open>with sd.InputStream(...)\<close> block, lines 102-124.\<close>

definition recording :: "env \<Rightarrow> path \<Rightarrow> midi_msg list \<Rightarrow> world \<Rightarrow> exn option \<times> world" where
  "recording e output_audio_filepath mid w =
     (case read_clock e w of
        (Inl x, w1) \<Rightarrow> (Some x, w1)
      | (Inr start_time, w1) \<Rightarrow>
          (case play e start_time 0 mid w1 of
             (Some x, w2) \<Rightarrow> (Some x, w2)
           | (None, w2) \<Rightarrow>
               (case sleep e 3 w2 of
                  (Some x, w3) \<Rightarrow> (Some x, w3)
                | (None, w3) \<Rightarrow>
                    write_all e output_audio_filepath (audio_buffer e (tick w3)) w3)))"

text \<open>
  The \<^verbatim>\<open>try\<close> block, lines 90-124: the input stream is opened, the body runs, and the stream is
  closed on every way out of the body; an exception raised while closing replaces the one in
  flight.
\<close>

definition session_body ::
  "env \<Rightarrow> path \<Rightarrow> int \<Rightarrow> int \<Rightarrow> int \<Rightarrow> int list option \<Rightarrow> midi_msg list \<Rightarrow> world
     \<Rightarrow> exn option \<times> world" where
  "session_body e output_audio_filepath input_audio_device sample_rate num_channels
       channel_map mid w =
     (case InputStream e input_audio_device sample_rate num_channels channel_map w of
        (Some x, w1) \<Rightarrow> (Some x, w1)
      | (None, w1) \<Rightarrow>
          (case recording e output_audio_filepath mid w1 of
             (r, w2) \<Rightarrow>
               (case close_stream e w2 of
                  (Some x, w3) \<Rightarrow> (Some x, w3)
                | (None, w3) \<Rightarrow> (r, w3))))"

text \<open>\<^verbatim>\<open>Path(file.name).unlink()\<close> and \<^verbatim>\<open>out_port.reset()\<close>.\<close>

definition unlink :: "env \<Rightarrow> path \<Rightarrow> world \<Rightarrow> exn option \<times> world" where
  "unlink e p w = call e (Unlink p) (\<lambda>v. v\<lparr>files := (files v)(p := None)\<rparr>) w"

definition reset :: "env \<Rightarrow> world \<Rightarrow> exn option \<times> world" where
  "reset e w = call e Midi_reset id w"

text \<open>The \<^verbatim>\<open>except KeyboardInterrupt\<close> handler, lines 126-132.\<close>

definition teardown :: "env \<Rightarrow> path \<Rightarrow> world \<Rightarrow> exn option \<times> world" where
  "teardown e output_audio_filepath w =
     (case close_file e output_audio_filepath w of
        (Some x, w1) \<Rightarrow> (Some x, w1)
      | (None, w1) \<Rightarrow>
          (case unlink e output_audio_filepath w1 of
             (Some x, w2) \<Rightarrow> (Some x, w2)
           | (None, w2) \<Rightarrow>
               (case reset e w2 of
                  (Some x, w3) \<Rightarrow> (Some x, w3)
                | (None, w3) \<Rightarrow>
                    (case close_port e w3 of
                       (Some x, w4) \<Rightarrow> (Some x, w4)
                     | (None, w4) \<Rightarrow> (Some (SystemExit 130), w4)))))"

text \<open>The \<^verbatim>\<open>try\<close> statement, lines 89-132.\<close>

definition guarded ::
  "env \<Rightarrow> path \<Rightarrow> int \<Rightarrow> int \<Rightarrow> int \<Rightarrow> int list option \<Rightarrow> midi_msg list \<Rightarrow> world
     \<Rightarrow> exn option \<times> world" where
  "guarded e output_audio_filepath input_audio_device sample_rate num_channels channel_map mid w =
     (case session_body e output_audio_filepath input_audio_device sample_rate num_channels
             channel_map mid w of
        (Some KeyboardInterrupt, w1) \<Rightarrow> teardown e output_audio_filepath w1
      | (r, w1) \<Rightarrow> (r, w1))"

text \<open>The \<^verbatim>\<open>with sf.SoundFile(..., mode="w", ...)\<close> block, lines 82-132.\<close>

definition with_sound_file ::
  "env \<Rightarrow> path \<Rightarrow> int \<Rightarrow> int \<Rightarrow> int \<Rightarrow> int list option \<Rightarrow> midi_msg list \<Rightarrow> world
     \<Rightarrow> exn option \<times> world" where
  "with_sound_file e output_audio_filepath input_audio_device sample_rate num_channels
       channel_map mid w =
     (case SoundFile e output_audio_filepath sample_rate num_channels w of
        (Some x, w1) \<Rightarrow> (Some x, w1)
      | (None, w1) \<Rightarrow>
          (case guarded e output_audio_filepath input_audio_device sample_rate num_channels
                  channel_map mid w1 of
             (r, w2) \<Rightarrow>
               (case close_file e output_audio_filepath w2 of
                  (Some x, w3) \<Rightarrow> (Some x, w3)
                | (None, w3) \<Rightarrow> (r, w3))))"

text \<open>The \<^verbatim>\<open>with open_output(output_port_name)\<close> block, lines 81-132.\<close>

definition with_out_port ::
  "env \<Rightarrow> path \<Rightarrow> string \<Rightarrow> int \<Rightarrow> int \<Rightarrow> int \<Rightarrow> int list option \<Rightarrow> midi_msg list \<Rightarrow> world
     \<Rightarrow> exn option \<times> world" where
  "with_out_port e output_audio_filepath output_port_name input_audio_device sample_rate
       num_channels channel_map mid w =
     (case open_output e output_port_name w of
        (Some x, w1) \<Rightarrow> (Some x, w1)
      | (None, w1) \<Rightarrow>
          (case with_sound_file e output_audio_filepath input_audio_device sample_rate
                  num_channels channel_map mid w1 of
             (r, w2) \<Rightarrow>
               (case close_port e w2 of
                  (Some x, w3) \<Rightarrow> (Some x, w3)
                | (None, w3) \<Rightarrow> (r, w3))))"

text \<open>
  Python's \<^verbatim>\<open>channel_map and num_channels != len(channel_map)\<close>: \<open>None\<close> and the empty list
  are both false.
\<close>

definition channel_mismatch :: "int \<Rightarrow> int list option \<Rightarrow> bool" where
  "channel_mismatch num_channels channel_map =
     (case channel_map of
        None \<Rightarrow> False
      | Some cm \<Rightarrow> cm \<noteq> [] \<and> num_channels \<noteq> int (length cm))"

definition capture_performance ::
  "path \<Rightarrow> path \<Rightarrow> string \<Rightarrow> int \<Rightarrow> int \<Rightarrow> int \<Rightarrow> int list option \<Rightarrow> int \<Rightarrow> env \<Rightarrow> world
     \<Rightarrow> exn option \<times> world" where
  "capture_performance input_midi_filepath output_audio_filepath output_port_name
       input_audio_device delay_ms num_channels channel_map sample_rate e w =
     (if channel_mismatch num_channels channel_map then (None, w)
      else case MidiFile e input_midi_filepath w of
        (Inl x, w1) \<Rightarrow> (if is_Exception x then (None, w1) else (Some x, w1))
      | (Inr mid, w1) \<Rightarrow>
          with_out_port e output_audio_filepath output_port_name input_audio_device sample_rate
            num_channels channel_map mid w1)"

subsection \<open>Python's true division of two integers (app.py, line 213)\<close>

text \<open>
  \<^verbatim>\<open>a / b\<close> on two Python integers is a double: the exact quotient rounded to the nearest
  binary64 value, ties to even; a zero divisor raises \<open>ZeroDivisionError\<close>, a quotient too large
  for a double raises \<open>OverflowError\<close>. The double is kept as the rational it denotes.
  \<open>ilog2 n\<close> is the position of the leading bit of \<open>n \<ge> 1\<close>, \<open>binary_exponent n d\<close> the binary
  exponent of \<open>n / d\<close>, \<open>scaled n d q\<close> the fraction \<open>(n / d) / 2 ^ q\<close> as numerator and
  denominator, and \<open>q\<close> in \<open>int_true_divide\<close> the exponent of the last bit of the 53-bit
  significand (not below that of the subnormal numbers).
\<close>

function ilog2 :: "int \<Rightarrow> int" where
  "ilog2 n = (if n \<le> 1 then 0 else 1 + ilog2 (n div 2))"
  by pat_completeness auto
termination
  by (relation "measure nat") auto

declare ilog2.simps [simp del]

definition pow2 :: "int \<Rightarrow> rat" where
  "pow2 k = (if 0 \<le> k then 2 ^ nat k else 1 / 2 ^ nat (- k))"

definition scaled :: "int \<Rightarrow> int \<Rightarrow> int \<Rightarrow> int \<times> int" where
  "scaled n d q = (if 0 \<le> q then (n, d * 2 ^ nat q) else (n * 2 ^ nat (- q), d))"

definition binary_exponent :: "int \<Rightarrow> int \<Rightarrow> int" where
  "binary_exponent n d =
     (let k = ilog2 n - ilog2 d
      in if snd (scaled n d k) \<le> fst (scaled n d k) then k else k - 1)"

definition round_half_even :: "int \<Rightarrow> int \<Rightarrow> int" where
  "round_half_even num den =
     (let m = num div den; r = num mod den
      in if 2 * r < den then m else if den < 2 * r then m + 1
         else if even m then m else m + 1)"

definition int_true_divide :: "int \<Rightarrow> int \<Rightarrow> exn + rat" where
  "int_true_divide a b =
     (if b = 0 then Inl (Error ''ZeroDivisionError'')
      else if a = 0 then Inr 0
      else (let n = \<bar>a\<bar>; d = \<bar>b\<bar>;
                q = max (binary_exponent n d - 52) (- 1074);
                m = round_half_even (fst (scaled n d q)) (snd (scaled n d q))
            in if 2 ^ 1024 \<le> of_int m * pow2 q then Inl (Error ''OverflowError'')
               else Inr (of_int (sgn a * sgn b * m) * pow2 q)))"

subsection \<open>The batch (app.py, lines 199-265)\<close>

text \<open>
  \<^verbatim>\<open>time.sleep(cooldown_duration_sec)\<close>, line 241: the forced rest, recorded with the instants
  at which it begins and ends.
\<close>

definition rest :: "env \<Rightarrow> rat \<Rightarrow> world \<Rightarrow> exn option \<times> world" where
  "rest e d w =
     (if d < 0 then (Some (Error ''ValueError''), w)
      else case raises e (tick w) of
        Some x \<Rightarrow> (Some x, advance e 0 w)
      | None \<Rightarrow>
          (None, record_event (now (advance e d w)) Rest_end
                   (record_event (now w) (Rest_begin d) (advance e d w))))"

text \<open>Lines 240-242; the result is the cooldown timer for the rest of the batch.\<close>

definition cooldown :: "env \<Rightarrow> int \<Rightarrow> int \<Rightarrow> rat \<Rightarrow> world \<Rightarrow> (exn + rat) \<times> world" where
  "cooldown e cooldown_threshold_sec cooldown_duration_sec cooldown_timer w =
     (case read_clock e w of
        (Inl x, w1) \<Rightarrow> (Inl x, w1)
      | (Inr t, w1) \<Rightarrow>
          if t - cooldown_timer > of_int cooldown_threshold_sec
          then (case rest e (of_int cooldown_duration_sec) w1 of
                  (Some x, w2) \<Rightarrow> (Inl x, w2)
                | (None, w2) \<Rightarrow> read_clock e w2)
          else (Inr cooldown_timer, w1))"

text \<open>
  The loop of lines 239-265. \<open>session\<close> is the call of \<^verbatim>\<open>capture_performance\<close> of line 256 with
  every argument but the two paths; \<open>output_of\<close> is the path computation of lines 244-250.
  The call and its return are marked in the trace.
\<close>

fun batch ::
  "env \<Rightarrow> (path \<Rightarrow> path \<Rightarrow> world \<Rightarrow> exn option \<times> world) \<Rightarrow> (path \<Rightarrow> path) \<Rightarrow> int \<Rightarrow> int
     \<Rightarrow> rat \<Rightarrow> path list \<Rightarrow> world \<Rightarrow> exn option \<times> world" where
  "batch e session output_of cooldown_threshold_sec cooldown_duration_sec cooldown_timer [] w =
     (None, w)"
| "batch e session output_of cooldown_threshold_sec cooldown_duration_sec cooldown_timer
       (input_midi_filepath # midi_filepaths) w =
     (case cooldown e cooldown_threshold_sec cooldown_duration_sec cooldown_timer w of
        (Inl x, w1) \<Rightarrow> (Some x, w1)
      | (Inr timer, w1) \<Rightarrow>
          (let output_audio_filepath = output_of input_midi_filepath
           in if files w1 output_audio_filepath \<noteq> None
              then batch e session output_of cooldown_threshold_sec cooldown_duration_sec timer
                     midi_filepaths w1
              else (case call e (Mkdir output_audio_filepath) id w1 of
                      (Some x, w2) \<Rightarrow> (Some x, w2)
                    | (None, w2) \<Rightarrow>
                        (case session input_midi_filepath output_audio_filepath
                                (record_event (now w2)
                                   (Session_begin input_midi_filepath output_audio_filepath) w2) of
                           (Some x, w3) \<Rightarrow> (Some x, w3)
                         | (None, w3) \<Rightarrow>
                             batch e session output_of cooldown_threshold_sec
                               cooldown_duration_sec timer midi_filepaths
                               (record_event (now w3) Session_end w3)))))"

text \<open>
  \<^verbatim>\<open>run\<close>. \<^verbatim>\<open>cooldown_parameters\<close> is \<open>None\<close> or a pair of integers, as annotated; on integers
  \<^verbatim>\<open>int(x * 60)\<close> is \<open>x * 60\<close>, and the \<^verbatim>\<open>/\<close> of line 213 is \<open>int_true_divide\<close>, whose result is
  compared with \<open>5.0\<close>. \<^verbatim>\<open>sys.exit(1)\<close> raises \<open>SystemExit 1\<close>.
\<close>

definition run ::
  "path \<Rightarrow> path \<Rightarrow> string \<Rightarrow> int \<Rightarrow> int \<Rightarrow> int \<Rightarrow> int list option \<Rightarrow> int \<Rightarrow> bool \<Rightarrow> string
     \<Rightarrow> (int \<times> int) option \<Rightarrow> env \<Rightarrow> world \<Rightarrow> exn option \<times> world" where
  "run input_midi_root output_audio_root output_port_name input_audio_device delay_ms
       num_channels channel_map sample_rate realtime output_suffix cooldown_parameters e w =
     (if channel_mismatch num_channels channel_map then (Some (SystemExit 1), w)
      else case cooldown_parameters of
        None \<Rightarrow> (Some (SystemExit 1), w)
      | Some (playtime_min, sleep_min) \<Rightarrow>
          (case int_true_divide playtime_min sleep_min of
             Inl x \<Rightarrow> (Some x, w)
           | Inr ratio \<Rightarrow>
               if ratio > 5 then (Some (SystemExit 1), w)
               else
                 (let cooldown_threshold_sec = playtime_min * 60;
                      cooldown_duration_sec = sleep_min * 60
                  in case call e (Scan input_midi_root) id w of
                       (Some x, w1) \<Rightarrow> (Some x, w1)
                     | (None, w1) \<Rightarrow>
                         (let midi_filepaths = map fst (sort_key snd (rglob e))
                          in case (if realtime then call e Realtime id w1 else (None, w1)) of
                               (Some x, w2) \<Rightarrow> (Some x, w2)
                             | (None, w2) \<Rightarrow>
                                 (case read_clock e w2 of
                                    (Inl x, w3) \<Rightarrow> (Some x, w3)
                                  | (Inr cooldown_timer, w3) \<Rightarrow>
                                      batch e
                                        (\<lambda>input_midi_filepath output_audio_filepath.
                                           capture_performance input_midi_filepath
                                             output_audio_filepath output_port_name
                                             input_audio_device delay_ms num_channels
                                             channel_map sample_rate e)
                                        (derive e input_midi_root output_audio_root
                                           output_suffix)
                                        cooldown_threshold_sec cooldown_duration_sec
                                        cooldown_timer midi_filepaths w3)))))"

subsection \<open>Post-processing (postprocess.py, lines 21-58)\<close>

text \<open>
  The filter expression is kept as its structure: the weights with the channel indices that
  \<^verbatim>\<open>enumerate\<close> gives them.
\<close>

datatype af_expr =
    Pan_mono "(nat \<times> rat) list"
  | Pan_stereo "(nat \<times> rat) list" "(nat \<times> rat) list"

text \<open>One \<^verbatim>\<open>ffmpeg.input(p, ss).output(output_path, af, ar).run(...)\<close>.\<close>

datatype ffmpeg_run = Ffmpeg_run path rat path af_expr int

text \<open>
  Python 3 has no order between a list and an integer: \<^verbatim>\<open>channel_weights < 1\<close> raises
  \<open>TypeError\<close> whatever the list holds.
\<close>

definition list_less_int :: "rat list \<Rightarrow> int \<Rightarrow> exn + bool list" where
  "list_less_int xs n = Inl (Error ''TypeError'')"

text \<open>Lines 27-41.\<close>

definition filter_expression ::
  "rat list option \<Rightarrow> bool \<Rightarrow> rat list option \<Rightarrow> rat list option \<Rightarrow> exn + af_expr" where
  "filter_expression channel_weights stereo stereo_c0_weights stereo_c1_weights =
     (if stereo then
        (case stereo_c0_weights of
           None \<Rightarrow> Inl (Error ''ValueError'')
         | Some c0 \<Rightarrow>
             if length c0 < 1 then Inl (Error ''ValueError'')
             else (case stereo_c1_weights of
                     None \<Rightarrow> Inl (Error ''ValueError'')
                   | Some c1 \<Rightarrow>
                       if length c1 < 1 then Inl (Error ''ValueError'')
                       else Inr (Pan_stereo (enumerate 0 c0) (enumerate 0 c1))))
      else
        (case channel_weights of
           None \<Rightarrow> Inl (Error ''ValueError'')
         | Some cw \<Rightarrow>
             (case list_less_int cw 1 of
                Inl x \<Rightarrow> Inl x
              | Inr bs \<Rightarrow>
                  if length bs \<noteq> 0 then Inl (Error ''ValueError'')
                  else Inr (Pan_mono (enumerate 0 cw)))))"

text \<open>
  \<^verbatim>\<open>process_wav_files\<close>: the result is the exception raised before the loop, or the transcoding
  calls the loop makes. \<open>audio_paths\<close> is the listing of line 23, \<open>exists\<close> the state of the
  output tree, \<open>output_of\<close> the path computation of line 45.
\<close>

definition process_wav_files ::
  "path list \<Rightarrow> (path \<Rightarrow> path) \<Rightarrow> (path \<Rightarrow> bool) \<Rightarrow> int \<Rightarrow> int \<Rightarrow> rat list option \<Rightarrow> bool
     \<Rightarrow> rat list option \<Rightarrow> rat list option \<Rightarrow> bool \<Rightarrow> exn + ffmpeg_run list" where
  "process_wav_files audio_paths output_of exists sample_rate offset_ms channel_weights stereo
       stereo_c0_weights stereo_c1_weights overwrite =
     (let offset_sec = of_int offset_ms * (1 / 1000)
      in case filter_expression channel_weights stereo stereo_c0_weights stereo_c1_weights of
           Inl x \<Rightarrow> Inl x
         | Inr af \<Rightarrow>
             Inr (map (\<lambda>p. Ffmpeg_run p offset_sec (output_of p) af sample_rate)
                    (filter (\<lambda>p. \<not> (\<not> overwrite \<and> exists (output_of p))) audio_paths)))"

section \<open>Observations on a run\<close>

text \<open>The MIDI messages the output port received, with the instants of the calls.\<close>

fun sends :: "(rat \<times> event) list \<Rightarrow> (rat \<times> midi_msg) list" where
  "sends [] = []"
| "sends ((t, Midi_send m) # tr) = (t, m) # sends tr"
| "sends (x # tr) = sends tr"

text \<open>
  The schedule of a performance source: every non-meta event with the sum of the deltas of
  all events up to and including it.
\<close>

fun schedule :: "rat \<Rightarrow> midi_msg list \<Rightarrow> (rat \<times> midi_msg) list" where
  "schedule acc [] = []"
| "schedule acc (m # ms) =
     (if is_MetaMessage m then schedule (acc + time m) ms
      else (acc + time m, m) # schedule (acc + time m) ms)"

text \<open>
  Events by what they are to the claims: a message sent, a reset, a mark of the batch loop
  (forced rest, session call and return), or any other library call.
\<close>

datatype kind = Quiet | Send | Reset | Marker

fun kind_of :: "event \<Rightarrow> kind" where
  "kind_of (Midi_send m) = Send"
| "kind_of Midi_reset = Reset"
| "kind_of (Rest_begin d) = Marker"
| "kind_of Rest_end = Marker"
| "kind_of (Session_begin a b) = Marker"
| "kind_of Session_end = Marker"
| "kind_of _ = Quiet"

text \<open>
  \<open>evolves e S P w w'\<close>: from \<open>w\<close> to \<open>w'\<close> the trace was extended by events of the kinds \<open>S\<close>,
  no file outside \<open>P\<close> was touched, and the clock did not go back if the environment's does not.
\<close>

definition evolves :: "env \<Rightarrow> kind set \<Rightarrow> path set \<Rightarrow> world \<Rightarrow> world \<Rightarrow> bool" where
  "evolves e S P w w' \<longleftrightarrow>
     (\<exists>new. trace w' = trace w @ new \<and> (\<forall>x\<in>set new. kind_of (snd x) \<in> S)) \<and>
     (\<forall>q. q \<notin> P \<longrightarrow> files w' q = files w q) \<and>
     ((\<forall>k. 0 \<le> elapses e k) \<longrightarrow> now w \<le> now w')"

text \<open>
  \<open>quiet e w w'\<close>: nothing was sent from \<open>w\<close> to \<open>w'\<close>. \<open>delivered mid r w w'\<close>: the messages
  sent from \<open>w\<close> to \<open>w'\<close> are the first non-meta events of \<open>mid\<close>, in order, and all of them
  if the result \<open>r\<close> is a normal return.
\<close>

definition quiet :: "env \<Rightarrow> world \<Rightarrow> world \<Rightarrow> bool" where
  "quiet e w w' \<longleftrightarrow> evolves e {Quiet, Reset} UNIV w w'"

definition delivered :: "midi_msg list \<Rightarrow> exn option \<Rightarrow> world \<Rightarrow> world \<Rightarrow> bool" where
  "delivered mid r w w' \<longleftrightarrow>
     trace w' = trace w @ since w w' \<and>
     (\<exists>k. map snd (sends (since w w')) = take k (filter (\<lambda>m. \<not> is_MetaMessage m) mid)) \<and>
     (r = None \<longrightarrow> map snd (sends (since w w')) = filter (\<lambda>m. \<not> is_MetaMessage m) mid)"

text \<open>
  \<open>on_time session_start sent due\<close>: the messages sent are the first of the schedule, each at
  an instant not before the session start plus its cumulative delta.
\<close>

definition on_time :: "rat \<Rightarrow> (rat \<times> midi_msg) list \<Rightarrow> (rat \<times> midi_msg) list \<Rightarrow> bool" where
  "on_time session_start sent due =
     list_all2 (\<lambda>(ts, m) (d, m'). m = m' \<and> session_start + d \<le> ts) sent
       (take (length sent) due)"

text \<open>The number of reset calls the MIDI output received.\<close>

definition resets :: "(rat \<times> event) list \<Rightarrow> nat" where
  "resets tr = length (filter (\<lambda>x. snd x = Midi_reset) tr)"

text \<open>
  Observations on the batch. \<open>rests_spaced th last_end tr\<close>: every forced rest of \<open>tr\<close> begins at
  least \<open>th\<close> after the end of the forced rest before it (\<open>last_end\<close>, if there was one before
  \<open>tr\<close>). \<open>rests_outside_sessions in_session tr\<close>: no forced rest of \<open>tr\<close> begins between the
  call of a session and its return. \<open>sessions tr\<close>: the sessions called, as source and
  destination.
\<close>

fun rests_spaced :: "rat \<Rightarrow> rat option \<Rightarrow> (rat \<times> event) list \<Rightarrow> bool" where
  "rests_spaced th last_end [] = True"
| "rests_spaced th last_end ((t, Rest_begin d) # tr) =
     ((case last_end of None \<Rightarrow> True | Some t0 \<Rightarrow> th \<le> t - t0) \<and> rests_spaced th last_end tr)"
| "rests_spaced th last_end ((t, Rest_end) # tr) = rests_spaced th (Some t) tr"
| "rests_spaced th last_end (x # tr) = rests_spaced th last_end tr"

fun last_rest_end :: "rat option \<Rightarrow> (rat \<times> event) list \<Rightarrow> rat option" where
  "last_rest_end last_end [] = last_end"
| "last_rest_end last_end ((t, Rest_end) # tr) = last_rest_end (Some t) tr"
| "last_rest_end last_end (x # tr) = last_rest_end last_end tr"

fun rests_outside_sessions :: "bool \<Rightarrow> (rat \<times> event) list \<Rightarrow> bool" where
  "rests_outside_sessions in_session [] = True"
| "rests_outside_sessions in_session ((t, Session_begin a b) # tr) = rests_outside_sessions True tr"
| "rests_outside_sessions in_session ((t, Session_end) # tr) = rests_outside_sessions False tr"
| "rests_outside_sessions in_session ((t, Rest_begin d) # tr) =
     (\<not> in_session \<and> rests_outside_sessions in_session tr)"
| "rests_outside_sessions in_session (x # tr) = rests_outside_sessions in_session tr"

fun in_session_after :: "bool \<Rightarrow> (rat \<times> event) list \<Rightarrow> bool" where
  "in_session_after in_session [] = in_session"
| "in_session_after in_session ((t, Session_begin a b) # tr) = in_session_after True tr"
| "in_session_after in_session ((t, Session_end) # tr) = in_session_after False tr"
| "in_session_after in_session (x # tr) = in_session_after in_session tr"

fun sessions :: "(rat \<times> event) list \<Rightarrow> (path \<times> path) list" where
  "sessions [] = []"
| "sessions ((t, Session_begin a b) # tr) = (a, b) # sessions tr"
| "sessions (x # tr) = sessions tr"

text \<open>
  What the batch loop relies on in a session: it marks nothing in the trace, touches no file
  but its destination, and does not turn the clock back.
\<close>

definition frames_sessions ::
  "env \<Rightarrow> (path \<Rightarrow> path \<Rightarrow> world \<Rightarrow> exn option \<times> world) \<Rightarrow> bool" where
  "frames_sessions e session \<longleftrightarrow>
     (\<forall>src dst v r v'. session src dst v = (r, v') \<longrightarrow> evolves e {Quiet, Send, Reset} {dst} v v')"

subsection \<open>Concrete environments\<close>

text \<open>
  A studio with one two-event MIDI file in which nothing fails and no time is lost, and a
  world with an empty disk.
\<close>

definition quiet_env :: env where
  "quiet_env =
     \<lparr>raises = (\<lambda>k. None), elapses = (\<lambda>k. 0),
      midi_events = (\<lambda>p. [Message 0 [144, 60, 64], MetaMessage 1 [47]]),
      audio_buffer = (\<lambda>k. [[0, 0]]),
      rglob = [(''in/a.mid'', 10)],
      derive = (\<lambda>r a s p. ''out/a.wav'')\<rparr>"

definition empty_world :: world where
  "empty_world =
     \<lparr>tick = 0, now = 0, files = (\<lambda>p. None), file_closed = True, port_closed = True,
      trace = []\<rparr>"

text \<open>The same studio on a machine where every library call takes a quarter of a second.\<close>

definition late_env :: env where
  "late_env =
     \<lparr>raises = (\<lambda>k. None), elapses = (\<lambda>k. 1 / 4),
      midi_events =
        (\<lambda>p. [Message 0 [144, 60, 64], MetaMessage 1 [47], Message (1 / 2) [128, 60, 64]]),
      audio_buffer = (\<lambda>k. [[0, 0]]),
      rglob = [(''in/a.mid'', 10)],
      derive = (\<lambda>r a s p. ''out/a.wav'')\<rparr>"

text \<open>
  Sessions in which the operator interrupts at the sixth library call, the first clock reading
  of the player loop; in the second one the ninth call, the deletion of the partial file,
  fails too; in the third the interrupt comes at the thirteenth call instead, the closing of
  the file by its \<^verbatim>\<open>with\<close> block. \<open>recording_world\<close> is a world as the interrupt handler of
  such a session finds it.
\<close>

definition interrupted_env :: env where
  "interrupted_env =
     quiet_env\<lparr>raises := (\<lambda>k. if k = 5 then Some KeyboardInterrupt else None)\<rparr>"

definition unlink_fails_env :: env where
  "unlink_fails_env =
     quiet_env\<lparr>raises := (\<lambda>k. if k = 5 then Some KeyboardInterrupt
                                else if k = 8 then Some (Error ''PermissionError'') else None)\<rparr>"

definition late_interrupt_env :: env where
  "late_interrupt_env =
     quiet_env\<lparr>raises := (\<lambda>k. if k = 12 then Some KeyboardInterrupt else None)\<rparr>"

definition recording_world :: world where
  "recording_world =
     \<lparr>tick = 7, now = 0, files = (\<lambda>p. if p = ''out/a.wav'' then Some [] else None),
      file_closed = False, port_closed = False, trace = []\<rparr>"

text \<open>
  A batch of three sources, each with one event after a hundred seconds; the same batch on a
  machine whose MIDI port cannot be opened (the sixth library call of the run fails); and a
  disk on which the output of \<^verbatim>\<open>in/a.mid\<close> is already there.
\<close>

definition long_env :: env where
  "long_env =
     \<lparr>raises = (\<lambda>k. None), elapses = (\<lambda>k. 0),
      midi_events = (\<lambda>p. [Message 100 [144, 60, 64]]),
      audio_buffer = (\<lambda>k. [[0, 0]]),
      rglob = [(''in/c.mid'', 30), (''in/a.mid'', 10), (''in/b.mid'', 20)],
      derive = (\<lambda>r a s p. if p = ''in/a.mid'' then ''out/a.wav''
                           else if p = ''in/b.mid'' then ''out/b.wav'' else ''out/c.wav'')\<rparr>"

definition no_port_env :: env where
  "no_port_env =
     long_env\<lparr>raises := (\<lambda>k. if k = 5 then Some (Error ''OSError'') else None)\<rparr>"

definition resumed_world :: world where
  "resumed_world =
     empty_world\<lparr>files := (\<lambda>p. if p = ''out/a.wav'' then Some [[7, 7]] else None)\<rparr>"

section \<open>Basic facts\<close>

lemmas library_defs =
  call_def advance_def record_event_def read_clock_def sleep_def MidiFile_def close_file_def
  close_port_def unlink_def reset_def open_output_def SoundFile_def InputStream_def
  close_stream_def dispatch_def player_step_def append_block_def rest_def
  cooldown_def

lemmas session_defs =
  recording_def session_body_def teardown_def guarded_def with_sound_file_def with_out_port_def
  channel_mismatch_def capture_performance_def

text \<open>
  The quotients of the runs below, as doubles. The third pair has an exact ratio above 5 that
  rounds to 5.0; the fourth quotient is beyond the largest double.
\<close>

lemma quotient_15_3: "int_true_divide 15 3 = Inr 5"
  by code_simp

lemma quotient_1_1: "int_true_divide 1 1 = Inr 1"
  by code_simp

lemma quotient_16_3: "int_true_divide 16 3 = Inr (6004799503160661 / 1125899906842624)"
  by code_simp

lemma quotient_rounds_to_5:
  "int_true_divide 500000000000000001 100000000000000000 = Inr 5"
  by code_simp

lemma quotient_overflows: "int_true_divide (10 ^ 309) 1 = Inl (Error ''OverflowError'')"
  by code_simp

lemmas quotients = quotient_15_3 quotient_1_1 quotient_16_3 quotient_rounds_to_5

lemma since_append: "trace w' = trace w @ new \<Longrightarrow> since w w' = new"
  by (simp add: since_def)

lemma evolves_refl: "evolves e S P w w"
  by (simp add: evolves_def)

lemma evolves_trans: "evolves e S P w w1 \<Longrightarrow> evolves e S P w1 w2 \<Longrightarrow> evolves e S P w w2"
  unfolding evolves_def
  apply (elim conjE exE)
  apply (intro conjI)
    apply (rule_tac x="new @ newa" in exI)
    apply auto
  done

lemma evolves_weaken: "evolves e S P w w' \<Longrightarrow> S \<subseteq> S' \<Longrightarrow> P \<subseteq> P' \<Longrightarrow> evolves e S' P' w w'"
  unfolding evolves_def by blast

lemma advance_simps [simp]:
  "trace (advance e d w) = trace w"
  "files (advance e d w) = files w"
  "file_closed (advance e d w) = file_closed w"
  "port_closed (advance e d w) = port_closed w"
  "tick (advance e d w) = Suc (tick w)"
  "now (advance e d w) = now w + d + elapses e (tick w)"
  by (simp_all add: advance_def)

lemma record_event_simps [simp]:
  "trace (record_event t ev w) = trace w @ [(t, ev)]"
  "files (record_event t ev w) = files w"
  "file_closed (record_event t ev w) = file_closed w"
  "port_closed (record_event t ev w) = port_closed w"
  "tick (record_event t ev w) = tick w"
  "now (record_event t ev w) = now w"
  by (simp_all add: record_event_def)

lemma evolves_advance: "0 \<le> d \<Longrightarrow> evolves e S P w (advance e d w)"
  by (simp add: evolves_def)

lemma evolves_record: "kind_of ev \<in> S \<Longrightarrow> evolves e S P w (record_event t ev w)"
  by (simp add: evolves_def)

lemma call_evolves:
  assumes "call e ev eff w = (r, w')" "kind_of ev \<in> S"
    and "\<And>v. trace (eff v) = trace v" "\<And>v. now (eff v) = now v"
    and "\<And>v q. q \<notin> P \<Longrightarrow> files (eff v) q = files v q"
  shows "evolves e S P w w'"
  using assms by (auto simp: call_def evolves_def split: option.splits)

lemma read_clock_evolves: "read_clock e w = (r, w') \<Longrightarrow> evolves e S P w w'"
  by (auto simp: read_clock_def evolves_def split: option.splits)

lemma sleep_evolves: "sleep e d w = (r, w') \<Longrightarrow> Quiet \<in> S \<Longrightarrow> evolves e S P w w'"
  by (auto simp: sleep_def evolves_def split: option.splits if_splits)

lemma MidiFile_evolves: "MidiFile e p w = (r, w') \<Longrightarrow> evolves e S P w w'"
  by (auto simp: MidiFile_def evolves_def split: option.splits)

lemma close_file_evolves: "close_file e p w = (r, w') \<Longrightarrow> Quiet \<in> S \<Longrightarrow> evolves e S P w w'"
  by (auto simp: close_file_def evolves_refl split: if_splits elim!: call_evolves)

lemma close_port_evolves: "close_port e w = (r, w') \<Longrightarrow> Quiet \<in> S \<Longrightarrow> evolves e S P w w'"
  by (auto simp: close_port_def evolves_refl split: if_splits elim!: call_evolves)

lemma dispatch_evolves: "dispatch e m w = (r, w') \<Longrightarrow> Send \<in> S \<Longrightarrow> evolves e S P w w'"
  by (auto simp: dispatch_def evolves_refl split: if_splits elim!: call_evolves)

lemma player_step_evolves:
  assumes "player_step e s t m w = (r, w')" "Quiet \<in> S" "Send \<in> S"
  shows "evolves e S P w w'"
  using assms unfolding player_step_def Let_def
  by (auto split: prod.splits sum.splits option.splits if_splits;
      meson evolves_trans read_clock_evolves sleep_evolves dispatch_evolves)

lemma play_evolves:
  "play e s t mid w = (r, w') \<Longrightarrow> Quiet \<in> S \<Longrightarrow> Send \<in> S \<Longrightarrow> evolves e S P w w'"
proof (induction mid arbitrary: t w)
  case Nil
  then show ?case by (simp add: evolves_refl)
next
  case (Cons m mid)
  then show ?case
    by (auto split: prod.splits option.splits; meson evolves_trans player_step_evolves)
qed

lemma append_block_simps [simp]:
  "trace (append_block p d w) = trace w"
  "now (append_block p d w) = now w"
  "q \<noteq> p \<Longrightarrow> files (append_block p d w) q = files w q"
  "file_closed (append_block p d w) = file_closed w"
  "port_closed (append_block p d w) = port_closed w"
  by (simp_all add: append_block_def)

lemma write_all_evolves:
  "write_all e p buf w = (r, w') \<Longrightarrow> Quiet \<in> S \<Longrightarrow> p \<in> P \<Longrightarrow> evolves e S P w w'"
proof (induction buf arbitrary: w)
  case Nil
  then show ?case by (simp add: evolves_refl)
next
  case (Cons d buf)
  show ?case
  proof (cases "call e (Wav_write p d) (append_block p d) w")
    case (Pair r1 w1)
    have 1: "evolves e S P w w1"
      using Pair by (rule call_evolves) (use Cons.prems(2,3) in \<open>auto simp: append_block_def\<close>)
    show ?thesis
    proof (cases r1)
      case None
      with Pair Cons.prems have "write_all e p buf w1 = (r, w')" by simp
      from Cons.IH[OF this Cons.prems(2,3)] 1 show ?thesis by (rule evolves_trans[rotated])
    next
      case (Some x)
      with Pair Cons.prems 1 show ?thesis by simp
    qed
  qed
qed


lemma sends_append: "sends (xs @ ys) = sends xs @ sends ys"
  by (induction xs rule: sends.induct) auto

lemma sends_no_Send: "\<forall>x\<in>set tr. kind_of (snd x) \<noteq> Send \<Longrightarrow> sends tr = []"
  by (induction tr rule: sends.induct) auto

lemma player_step_sends:
  assumes "player_step e s t m w = (r, w')"
  shows "\<exists>new. trace w' = trace w @ new \<and>
           (if r = None \<and> \<not> is_MetaMessage m
            then \<exists>ts. sends new = [(ts, m)] \<and> ((\<forall>k. 0 \<le> elapses e k) \<longrightarrow> s + t \<le> ts)
            else sends new = [])"
proof (cases "raises e (tick w)")
  case (Some x)
  with assms show ?thesis by (auto simp: player_step_def read_clock_def)
next
  case None
  let ?w1 = "advance e 0 w"
  let ?d = "t - (now ?w1 - s)"
  have rc: "read_clock e w = (Inr (now ?w1), ?w1)"
    using None by (simp add: read_clock_def)
  show ?thesis
  proof (cases "?d > 0")
    case False
    then have eq: "dispatch e m ?w1 = (r, w')"
      using assms rc by (simp add: player_step_def Let_def)
    from False have "s + t \<le> now ?w1" by simp
    with eq show ?thesis
      by (auto simp: dispatch_def call_def split: if_splits option.splits)
  next
    case True
    show ?thesis
    proof (cases "raises e (tick ?w1)")
      case (Some x)
      with assms rc True show ?thesis
        by (auto simp: player_step_def Let_def sleep_def)
    next
      case None
      let ?w2 = "record_event (now ?w1) (Sleep ?d) (advance e ?d ?w1)"
      have sl: "sleep e ?d ?w1 = (None, ?w2)"
        using None True by (simp add: sleep_def)
      have eq: "dispatch e m ?w2 = (r, w')"
        using assms rc True sl by (simp add: player_step_def Let_def)
      have "(\<forall>k. 0 \<le> elapses e k) \<longrightarrow> s + t \<le> now ?w2"
      proof
        assume "\<forall>k. 0 \<le> elapses e k"
        then have "0 \<le> elapses e (Suc (tick w))" by blast
        then show "s + t \<le> now ?w2" by simp
      qed
      with eq show ?thesis
        by (auto simp: dispatch_def call_def split: if_splits option.splits)
    qed
  qed
qed

lemma play_sends:
  assumes "play e s t mid w = (r, w')"
  shows "\<exists>new. trace w' = trace w @ new \<and>
           (r = None \<longrightarrow> map snd (sends new) = filter (\<lambda>m. \<not> is_MetaMessage m) mid) \<and>
           (\<exists>k. map snd (sends new) = take k (filter (\<lambda>m. \<not> is_MetaMessage m) mid)) \<and>
           ((\<forall>k. 0 \<le> elapses e k) \<longrightarrow>
              list_all2 (\<lambda>(ts, m) (due, m'). m = m' \<and> s + due \<le> ts)
                (sends new) (take (length (sends new)) (schedule t mid)))"
  using assms
proof (induction mid arbitrary: t w)
  case Nil
  then show ?case by simp
next
  case (Cons m mid)
  let ?F = "filter (\<lambda>m. \<not> is_MetaMessage m)"
  obtain r1 w1 where st: "player_step e s (t + time m) m w = (r1, w1)"
    by (cases "player_step e s (t + time m) m w")
  from player_step_sends[OF st] obtain new1 where
    n1: "trace w1 = trace w @ new1"
    and s1: "if r1 = None \<and> \<not> is_MetaMessage m
            then \<exists>ts. sends new1 = [(ts, m)] \<and> ((\<forall>k. 0 \<le> elapses e k) \<longrightarrow> s + (t + time m) \<le> ts)
            else sends new1 = []"
    by blast
  show ?case
  proof (cases r1)
    case (Some x)
    with st Cons.prems have "r = Some x" "w' = w1" by auto
    moreover have "map snd (sends new1) = take 0 (?F (m # mid))" using s1 Some by simp
    moreover have "sends new1 = []" using s1 Some by simp
    ultimately show ?thesis using n1 by (intro exI[of _ new1]) simp
  next
    case None
    with st Cons.prems have "play e s (t + time m) mid w1 = (r, w')" by simp
    from Cons.IH[OF this] obtain new2 k where
      n2: "trace w' = trace w1 @ new2"
      and c2: "r = None \<longrightarrow> map snd (sends new2) = ?F mid"
      and p2: "map snd (sends new2) = take k (?F mid)"
      and t2: "(\<forall>k. 0 \<le> elapses e k) \<longrightarrow>
              list_all2 (\<lambda>(ts, m) (due, m'). m = m' \<and> s + due \<le> ts)
                (sends new2) (take (length (sends new2)) (schedule (t + time m) mid))"
      by blast
    have "trace w' = trace w @ (new1 @ new2)" using n1 n2 by simp
    moreover have "r = None \<longrightarrow> map snd (sends (new1 @ new2)) = ?F (m # mid)"
      using s1 c2 None by (auto simp: sends_append)
    moreover have "\<exists>j. map snd (sends (new1 @ new2)) = take j (?F (m # mid))"
    proof (cases "is_MetaMessage m")
      case True
      with s1 p2 show ?thesis by (auto simp: sends_append)
    next
      case False
      with s1 p2 None have "map snd (sends (new1 @ new2)) = take (Suc k) (?F (m # mid))"
        by (auto simp: sends_append)
      then show ?thesis ..
    qed
    moreover have "(\<forall>k. 0 \<le> elapses e k) \<longrightarrow>
              list_all2 (\<lambda>(ts, m) (due, m'). m = m' \<and> s + due \<le> ts)
                (sends (new1 @ new2)) (take (length (sends (new1 @ new2))) (schedule t (m # mid)))"
      using s1 t2 None by (auto simp: sends_append)
    ultimately show ?thesis by blast
  qed
qed

lemma evolves_since: "evolves e S P w w' \<Longrightarrow> trace w' = trace w @ since w w'"
  by (auto simp: evolves_def since_def)

lemma evolves_kinds: "evolves e S P w w' \<Longrightarrow> x \<in> set (since w w') \<Longrightarrow> kind_of (snd x) \<in> S"
  by (auto simp: evolves_def since_def)

lemma since_trans:
  "evolves e S P w w1 \<Longrightarrow> evolves e S' P' w1 w2 \<Longrightarrow> since w w2 = since w w1 @ since w1 w2"
  by (auto simp: evolves_def since_def)

lemma evolves_no_sends: "evolves e S P w w' \<Longrightarrow> Send \<notin> S \<Longrightarrow> sends (since w w') = []"
  by (rule sends_no_Send) (auto dest: evolves_kinds)

lemma unlink_evolves: "unlink e p w = (r, w') \<Longrightarrow> Quiet \<in> S \<Longrightarrow> p \<in> P \<Longrightarrow> evolves e S P w w'"
  unfolding unlink_def by (erule call_evolves) auto

lemma reset_evolves: "reset e w = (r, w') \<Longrightarrow> Reset \<in> S \<Longrightarrow> evolves e S P w w'"
  unfolding reset_def by (erule call_evolves) auto

lemma recording_evolves:
  assumes "recording e p mid w = (r, w')" "Quiet \<in> S" "Send \<in> S" "p \<in> P"
  shows "evolves e S P w w'"
  using assms unfolding recording_def
  by (auto split: prod.splits sum.splits option.splits;
      meson evolves_trans read_clock_evolves play_evolves sleep_evolves write_all_evolves)

lemma open_output_evolves: "open_output e port w = (r, w') \<Longrightarrow> Quiet \<in> S \<Longrightarrow> evolves e S P w w'"
  unfolding open_output_def by (erule call_evolves) auto

lemma SoundFile_evolves:
  "SoundFile e p sr n w = (r, w') \<Longrightarrow> Quiet \<in> S \<Longrightarrow> p \<in> P \<Longrightarrow> evolves e S P w w'"
  unfolding SoundFile_def by (erule call_evolves) auto

lemma InputStream_evolves:
  "InputStream e dev sr n cm w = (r, w') \<Longrightarrow> Quiet \<in> S \<Longrightarrow> evolves e S P w w'"
  unfolding InputStream_def by (erule call_evolves) auto

lemma close_stream_evolves: "close_stream e w = (r, w') \<Longrightarrow> Quiet \<in> S \<Longrightarrow> evolves e S P w w'"
  unfolding close_stream_def by (erule call_evolves) auto

lemma session_body_evolves:
  assumes "session_body e p dev sr n cm mid w = (r, w')" "Quiet \<in> S" "Send \<in> S" "p \<in> P"
  shows "evolves e S P w w'"
  using assms unfolding session_body_def
  by (auto split: prod.splits option.splits;
      meson evolves_trans InputStream_evolves close_stream_evolves recording_evolves)

lemma teardown_evolves:
  assumes "teardown e p w = (r, w')" "Quiet \<in> S" "Reset \<in> S" "p \<in> P"
  shows "evolves e S P w w'"
  using assms unfolding teardown_def
  by (auto split: prod.splits option.splits;
      meson evolves_trans close_file_evolves unlink_evolves reset_evolves close_port_evolves)

lemma guarded_evolves:
  assumes "guarded e p dev sr n cm mid w = (r, w')" "Quiet \<in> S" "Send \<in> S" "Reset \<in> S" "p \<in> P"
  shows "evolves e S P w w'"
  using assms unfolding guarded_def
  by (auto split: prod.splits option.splits exn.splits;
      meson evolves_trans session_body_evolves teardown_evolves)

lemma with_sound_file_evolves:
  assumes "with_sound_file e p dev sr n cm mid w = (r, w')"
    "Quiet \<in> S" "Send \<in> S" "Reset \<in> S" "p \<in> P"
  shows "evolves e S P w w'"
  using assms unfolding with_sound_file_def
  by (auto split: prod.splits option.splits;
      meson evolves_trans SoundFile_evolves guarded_evolves close_file_evolves)

lemma with_out_port_evolves:
  assumes "with_out_port e p port dev sr n cm mid w = (r, w')"
    "Quiet \<in> S" "Send \<in> S" "Reset \<in> S" "p \<in> P"
  shows "evolves e S P w w'"
  using assms unfolding with_out_port_def
  by (auto split: prod.splits option.splits;
      meson evolves_trans open_output_evolves with_sound_file_evolves close_port_evolves)

lemma capture_performance_evolves:
  assumes "capture_performance src p port dev delay n cm sr e w = (r, w')"
    "Quiet \<in> S" "Send \<in> S" "Reset \<in> S" "p \<in> P"
  shows "evolves e S P w w'"
  using assms unfolding capture_performance_def
  by (auto split: prod.splits option.splits sum.splits if_splits simp: evolves_refl;
      meson evolves_trans MidiFile_evolves with_out_port_evolves)

lemma quiet_sends: "quiet e w w' \<Longrightarrow> trace w' = trace w @ since w w' \<and> sends (since w w') = []"
  unfolding quiet_def by (auto dest: evolves_since evolves_no_sends)

lemma since_trans':
  assumes "trace w1 = trace w @ since w w1" "trace w2 = trace w1 @ since w1 w2"
  shows "trace w2 = trace w @ since w w2" "since w w2 = since w w1 @ since w1 w2"
proof -
  have "trace w2 = trace w @ (since w w1 @ since w1 w2)"
    using assms by (metis append.assoc)
  then show "since w w2 = since w w1 @ since w1 w2" by (rule since_append)
  then show "trace w2 = trace w @ since w w2"
    using assms by (metis append.assoc)
qed

lemma delivered_pre:
  assumes q: "quiet e w w1" and d: "delivered mid r w1 w2"
  shows "delivered mid r w w2"
proof -
  from q have a: "trace w1 = trace w @ since w w1" and b: "sends (since w w1) = []"
    by (auto dest: quiet_sends)
  from d have c: "trace w2 = trace w1 @ since w1 w2" by (simp only: delivered_def)
  have eq: "sends (since w w2) = sends (since w1 w2)"
    by (simp only: since_trans'(2)[OF a c] sends_append b append_Nil)
  from d have "\<exists>k. map snd (sends (since w1 w2)) = take k (filter (\<lambda>m. \<not> is_MetaMessage m) mid)"
    and "r = None \<longrightarrow> map snd (sends (since w1 w2)) = filter (\<lambda>m. \<not> is_MetaMessage m) mid"
    unfolding delivered_def by blast+
  with since_trans'(1)[OF a c] show ?thesis unfolding delivered_def eq by blast
qed

lemma delivered_post:
  assumes d: "delivered mid r w w1" and q: "quiet e w1 w2"
  shows "delivered mid r w w2"
proof -
  from q have c: "trace w2 = trace w1 @ since w1 w2" and b: "sends (since w1 w2) = []"
    by (auto dest: quiet_sends)
  from d have a: "trace w1 = trace w @ since w w1" by (simp only: delivered_def)
  have eq: "sends (since w w2) = sends (since w w1)"
    by (simp only: since_trans'(2)[OF a c] sends_append b append_Nil2)
  from d have "\<exists>k. map snd (sends (since w w1)) = take k (filter (\<lambda>m. \<not> is_MetaMessage m) mid)"
    and "r = None \<longrightarrow> map snd (sends (since w w1)) = filter (\<lambda>m. \<not> is_MetaMessage m) mid"
    unfolding delivered_def by blast+
  with since_trans'(1)[OF a c] show ?thesis unfolding delivered_def eq by blast
qed

lemma delivered_Some: "delivered mid r w w' \<Longrightarrow> delivered mid (Some x) w w'"
  unfolding delivered_def by auto

lemma delivered_refl: "delivered mid (Some x) w w"
  unfolding delivered_def by (auto simp: since_def intro: exI[of _ 0])

lemma quiet_delivered: "quiet e w w' \<Longrightarrow> delivered mid (Some x) w w'"
  using delivered_post[OF delivered_refl] .

lemma play_delivered: "play e s t mid w = (r, w') \<Longrightarrow> delivered mid r w w'"
  by (drule play_sends) (auto simp: delivered_def since_def)

lemma quiet_prims:
  "read_clock e w = (rc, w') \<Longrightarrow> quiet e w w'"
  "sleep e d w = (r, w') \<Longrightarrow> quiet e w w'"
  "MidiFile e src w = (rm, w') \<Longrightarrow> quiet e w w'"
  "write_all e p buf w = (r, w') \<Longrightarrow> quiet e w w'"
  "close_file e p w = (r, w') \<Longrightarrow> quiet e w w'"
  "close_port e w = (r, w') \<Longrightarrow> quiet e w w'"
  "unlink e p w = (r, w') \<Longrightarrow> quiet e w w'"
  "reset e w = (r, w') \<Longrightarrow> quiet e w w'"
  "open_output e port w = (r, w') \<Longrightarrow> quiet e w w'"
  "SoundFile e p sr n w = (r, w') \<Longrightarrow> quiet e w w'"
  "InputStream e dev sr n cm w = (r, w') \<Longrightarrow> quiet e w w'"
  "close_stream e w = (r, w') \<Longrightarrow> quiet e w w'"
  "teardown e p w = (r, w') \<Longrightarrow> quiet e w w'"
  unfolding quiet_def
  by (auto intro: read_clock_evolves sleep_evolves MidiFile_evolves write_all_evolves
      close_file_evolves close_port_evolves unlink_evolves reset_evolves open_output_evolves
      SoundFile_evolves InputStream_evolves close_stream_evolves teardown_evolves)

lemma teardown_raises: "teardown e p w = (r, w') \<Longrightarrow> r \<noteq> None"
  by (auto simp: teardown_def split: prod.splits option.splits)



lemma delivered_None: "delivered mid None w w' \<Longrightarrow> delivered mid r w w'"
  unfolding delivered_def by blast

lemma recording_delivered:
  assumes "recording e p mid w = (r, w')"
  shows "delivered mid r w w'"
proof -
  obtain rc w1 where 1: "read_clock e w = (rc, w1)" by (cases "read_clock e w")
  note q1 = quiet_prims(1)[OF 1]
  show ?thesis
  proof (cases rc)
    case (Inl x)
    with assms 1 have "r = Some x" "w' = w1" by (auto simp: recording_def)
    with q1 show ?thesis by (simp add: quiet_delivered)
  next
    case (Inr st)
    obtain r2 w2 where 2: "play e st 0 mid w1 = (r2, w2)" by (cases "play e st 0 mid w1")
    have d2: "delivered mid r2 w w2" using delivered_pre[OF q1 play_delivered[OF 2]] .
    show ?thesis
    proof (cases r2)
      case (Some x)
      with assms 1 Inr 2 have "r = Some x" "w' = w2" by (auto simp: recording_def)
      with d2 Some show ?thesis by simp
    next
      case None
      obtain r3 w3 where 3: "sleep e 3 w2 = (r3, w3)" by (cases "sleep e 3 w2")
      have d3: "delivered mid None w w3"
        using delivered_post[OF d2 quiet_prims(2)[OF 3]] None by simp
      show ?thesis
      proof (cases r3)
        case (Some x)
        with assms 1 Inr 2 None 3 have "r = Some x" "w' = w3" by (auto simp: recording_def)
        with d3 show ?thesis by (simp add: delivered_None)
      next
        case None': None
        with assms 1 Inr 2 None 3 have "write_all e p (audio_buffer e (tick w3)) w3 = (r, w')"
          by (simp add: recording_def)
        from delivered_post[OF d3 quiet_prims(4)[OF this]] show ?thesis
          by (rule delivered_None)
      qed
    qed
  qed
qed

lemma session_body_delivered:
  assumes "session_body e p dev sr n cm mid w = (r, w')"
  shows "delivered mid r w w'"
proof -
  obtain r1 w1 where 1: "InputStream e dev sr n cm w = (r1, w1)"
    by (cases "InputStream e dev sr n cm w")
  note q1 = quiet_prims(11)[OF 1]
  show ?thesis
  proof (cases r1)
    case (Some x)
    with assms 1 have "r = Some x" "w' = w1" by (auto simp: session_body_def)
    with q1 show ?thesis by (simp add: quiet_delivered)
  next
    case None
    obtain r2 w2 where 2: "recording e p mid w1 = (r2, w2)" by (cases "recording e p mid w1")
    obtain r3 w3 where 3: "close_stream e w2 = (r3, w3)" by (cases "close_stream e w2")
    have d3: "delivered mid r2 w w3"
      using delivered_post[OF delivered_pre[OF q1 recording_delivered[OF 2]] quiet_prims(12)[OF 3]] .
    show ?thesis
    proof (cases r3)
      case (Some x)
      with assms 1 None 2 3 have "r = Some x" "w' = w3" by (auto simp: session_body_def)
      with d3 show ?thesis by (simp add: delivered_Some)
    next
      case None': None
      with assms 1 None 2 3 have "r = r2" "w' = w3" by (auto simp: session_body_def)
      with d3 show ?thesis by simp
    qed
  qed
qed

lemma guarded_delivered:
  assumes "guarded e p dev sr n cm mid w = (r, w')"
  shows "delivered mid r w w'"
proof -
  obtain r1 w1 where 1: "session_body e p dev sr n cm mid w = (r1, w1)"
    by (cases "session_body e p dev sr n cm mid w")
  note d1 = session_body_delivered[OF 1]
  show ?thesis
  proof (cases "r1 = Some KeyboardInterrupt")
    case True
    with assms 1 have t: "teardown e p w1 = (r, w')" by (simp add: guarded_def)
    from teardown_raises[OF t] obtain x where "r = Some x" by blast
    with delivered_post[OF d1 quiet_prims(13)[OF t]] show ?thesis
      by (simp add: delivered_Some)
  next
    case False
    with assms 1 have "r = r1" "w' = w1"
      by (auto simp: guarded_def split: option.splits exn.splits)
    with d1 show ?thesis by simp
  qed
qed

lemma with_sound_file_delivered:
  assumes "with_sound_file e p dev sr n cm mid w = (r, w')"
  shows "delivered mid r w w'"
proof -
  obtain r1 w1 where 1: "SoundFile e p sr n w = (r1, w1)" by (cases "SoundFile e p sr n w")
  note q1 = quiet_prims(10)[OF 1]
  show ?thesis
  proof (cases r1)
    case (Some x)
    with assms 1 have "r = Some x" "w' = w1" by (auto simp: with_sound_file_def)
    with q1 show ?thesis by (simp add: quiet_delivered)
  next
    case None
    obtain r2 w2 where 2: "guarded e p dev sr n cm mid w1 = (r2, w2)"
      by (cases "guarded e p dev sr n cm mid w1")
    obtain r3 w3 where 3: "close_file e p w2 = (r3, w3)" by (cases "close_file e p w2")
    have d3: "delivered mid r2 w w3"
      using delivered_post[OF delivered_pre[OF q1 guarded_delivered[OF 2]] quiet_prims(5)[OF 3]] .
    show ?thesis
    proof (cases r3)
      case (Some x)
      with assms 1 None 2 3 have "r = Some x" "w' = w3" by (auto simp: with_sound_file_def)
      with d3 show ?thesis by (simp add: delivered_Some)
    next
      case None': None
      with assms 1 None 2 3 have "r = r2" "w' = w3" by (auto simp: with_sound_file_def)
      with d3 show ?thesis by simp
    qed
  qed
qed

lemma with_out_port_delivered:
  assumes "with_out_port e p port dev sr n cm mid w = (r, w')"
  shows "delivered mid r w w'"
proof -
  obtain r1 w1 where 1: "open_output e port w = (r1, w1)" by (cases "open_output e port w")
  note q1 = quiet_prims(9)[OF 1]
  show ?thesis
  proof (cases r1)
    case (Some x)
    with assms 1 have "r = Some x" "w' = w1" by (auto simp: with_out_port_def)
    with q1 show ?thesis by (simp add: quiet_delivered)
  next
    case None
    obtain r2 w2 where 2: "with_sound_file e p dev sr n cm mid w1 = (r2, w2)"
      by (cases "with_sound_file e p dev sr n cm mid w1")
    obtain r3 w3 where 3: "close_port e w2 = (r3, w3)" by (cases "close_port e w2")
    have d3: "delivered mid r2 w w3"
      using delivered_post[OF delivered_pre[OF q1 with_sound_file_delivered[OF 2]]
          quiet_prims(6)[OF 3]] .
    show ?thesis
    proof (cases r3)
      case (Some x)
      with assms 1 None 2 3 have "r = Some x" "w' = w3" by (auto simp: with_out_port_def)
      with d3 show ?thesis by (simp add: delivered_Some)
    next
      case None': None
      with assms 1 None 2 3 have "r = r2" "w' = w3" by (auto simp: with_out_port_def)
      with d3 show ?thesis by simp
    qed
  qed
qed










lemma resets_append: "resets (xs @ ys) = resets xs + resets ys"
  by (simp add: resets_def)

lemma evolves_no_resets: "evolves e S P w w' \<Longrightarrow> Reset \<notin> S \<Longrightarrow> resets (since w w') = 0"
  by (auto simp: resets_def filter_empty_conv dest: evolves_kinds)


lemmas env_defs =
  quiet_env_def empty_world_def late_env_def interrupted_env_def unlink_fails_env_def
  late_interrupt_env_def recording_world_def

lemma rests_spaced_append:
  "rests_spaced th l (xs @ ys) \<longleftrightarrow> rests_spaced th l xs \<and> rests_spaced th (last_rest_end l xs) ys"
  by (induction th l xs rule: rests_spaced.induct) auto

lemma last_rest_end_append:
  "last_rest_end l (xs @ ys) = last_rest_end (last_rest_end l xs) ys"
  by (induction l xs rule: last_rest_end.induct) auto

lemma rests_outside_append:
  "rests_outside_sessions b (xs @ ys) \<longleftrightarrow>
     rests_outside_sessions b xs \<and> rests_outside_sessions (in_session_after b xs) ys"
  by (induction b xs rule: rests_outside_sessions.induct) auto

lemma in_session_after_append:
  "in_session_after b (xs @ ys) = in_session_after (in_session_after b xs) ys"
  by (induction b xs rule: in_session_after.induct) auto

lemma sessions_append: "sessions (xs @ ys) = sessions xs @ sessions ys"
  by (induction xs rule: sessions.induct) auto

lemma no_marker_facts:
  assumes "\<forall>x\<in>set tr. kind_of (snd x) \<noteq> Marker"
  shows "rests_spaced th l tr" "last_rest_end l tr = l" "rests_outside_sessions b tr"
    "in_session_after b tr = b" "sessions tr = []"
proof -
  show "rests_spaced th l tr" using assms
    by (induction th l tr rule: rests_spaced.induct) auto
  show "last_rest_end l tr = l" using assms
    by (induction l tr rule: last_rest_end.induct) auto
  show "rests_outside_sessions b tr" using assms
    by (induction b tr rule: rests_outside_sessions.induct) auto
  show "in_session_after b tr = b" using assms
    by (induction b tr rule: in_session_after.induct) auto
  show "sessions tr = []" using assms
    by (induction tr rule: sessions.induct) auto
qed

lemma batch_Cons_cases:
  assumes "batch e session out th du timer (src # srcs) w = (r, w')"
  obtains
    (cooldown_fails) x where "cooldown e th du timer w = (Inl x, w')" "r = Some x"
  | (skipped) timer' w1 where "cooldown e th du timer w = (Inr timer', w1)"
      "files w1 (out src) \<noteq> None" "batch e session out th du timer' srcs w1 = (r, w')"
  | (mkdir_fails) timer' w1 x where "cooldown e th du timer w = (Inr timer', w1)"
      "files w1 (out src) = None" "call e (Mkdir (out src)) id w1 = (Some x, w')" "r = Some x"
  | (session_fails) timer' w1 w2 x where "cooldown e th du timer w = (Inr timer', w1)"
      "files w1 (out src) = None" "call e (Mkdir (out src)) id w1 = (None, w2)"
      "session src (out src) (record_event (now w2) (Session_begin src (out src)) w2) = (Some x, w')"
      "r = Some x"
  | (continues) timer' w1 w2 w3 where "cooldown e th du timer w = (Inr timer', w1)"
      "files w1 (out src) = None" "call e (Mkdir (out src)) id w1 = (None, w2)"
      "session src (out src) (record_event (now w2) (Session_begin src (out src)) w2) = (None, w3)"
      "batch e session out th du timer' srcs (record_event (now w3) Session_end w3) = (r, w')"
  using assms
  by (auto simp: Let_def split: prod.splits sum.splits option.splits if_splits)

lemma cooldown_cases:
  assumes "cooldown e th du timer w = (res, w')"
  obtains
    (no_rest) "trace w' = trace w" "files w' = files w" "res = Inr timer \<or> (\<exists>x. res = Inl x)"
      "(\<forall>k. 0 \<le> elapses e k) \<longrightarrow> now w \<le> now w'"
  | (rested) t1 t2 where
      "trace w' = trace w @ [(t1, Rest_begin (of_int du)), (t2, Rest_end)]" "files w' = files w"
      "of_int th < t1 - timer" "\<forall>timer'. res = Inr timer' \<longrightarrow> ((\<forall>k. 0 \<le> elapses e k) \<longrightarrow> t2 \<le> timer')"
      "(\<forall>k. 0 \<le> elapses e k) \<longrightarrow> now w \<le> now w'"
  using assms unfolding cooldown_def read_clock_def rest_def
  by (auto split: option.splits if_splits prod.splits sum.splits simp: add_nonneg_nonneg)


lemma capture_performance_frames:
  "frames_sessions e (\<lambda>src dst. capture_performance src dst port dev delay n cm sr e)"
  unfolding frames_sessions_def
  by (auto elim!: capture_performance_evolves)

lemma frames_sessionsD:
  assumes "frames_sessions e session" "session src dst v = (r, v')"
  shows "trace v' = trace v @ since v v'" "\<forall>x\<in>set (since v v'). kind_of (snd x) \<noteq> Marker"
    "q \<noteq> dst \<Longrightarrow> files v' q = files v q" "(\<forall>k. 0 \<le> elapses e k) \<Longrightarrow> now v \<le> now v'"
proof -
  from assms have ev: "evolves e {Quiet, Send, Reset} {dst} v v'"
    unfolding frames_sessions_def by blast
  show "trace v' = trace v @ since v v'" by (rule evolves_since[OF ev])
  show "\<forall>x\<in>set (since v v'). kind_of (snd x) \<noteq> Marker"
    using evolves_kinds[OF ev] by fastforce
  show "q \<noteq> dst \<Longrightarrow> files v' q = files v q" using ev by (simp add: evolves_def)
  show "(\<forall>k. 0 \<le> elapses e k) \<Longrightarrow> now v \<le> now v'" using ev by (simp add: evolves_def)
qed

lemma mkdir_facts:
  assumes "call e (Mkdir p) id w = (r, w')"
  shows "files w' = files w" "r = None \<Longrightarrow> \<exists>t. trace w' = trace w @ [(t, Mkdir p)]"
    "r \<noteq> None \<Longrightarrow> trace w' = trace w"
  using assms by (auto simp: call_def split: option.splits)

lemma cooldown_spaced:
  assumes mono: "\<forall>k. 0 \<le> elapses e k"
    and c: "cooldown e th du timer w = (res, w1)"
    and l: "case l of None \<Rightarrow> True | Some t0 \<Rightarrow> t0 \<le> timer"
  obtains new where "trace w1 = trace w @ new" "rests_spaced (of_int th) l new"
    "\<forall>timer'. res = Inr timer' \<longrightarrow>
       (case last_rest_end l new of None \<Rightarrow> True | Some t0 \<Rightarrow> t0 \<le> timer')"
  using c
proof (cases rule: cooldown_cases)
  case no_rest
  show ?thesis
    by (rule that[of "[]"]) (use no_rest l in auto)
next
  case (rested t1 t2)
  show ?thesis
  proof (rule that[of "[(t1, Rest_begin (of_int du)), (t2, Rest_end)]"])
    show "trace w1 = trace w @ [(t1, Rest_begin (of_int du)), (t2, Rest_end)]" by (rule rested(1))
    show "rests_spaced (of_int th) l [(t1, Rest_begin (of_int du)), (t2, Rest_end)]"
      using rested(3) l by (auto split: option.splits)
    show "\<forall>timer'. res = Inr timer' \<longrightarrow>
       (case last_rest_end l [(t1, Rest_begin (of_int du)), (t2, Rest_end)] of
          None \<Rightarrow> True | Some t0 \<Rightarrow> t0 \<le> timer')"
      using rested(4) mono by simp
  qed
qed

lemma cooldown_marks:
  assumes "cooldown e th du timer w = (res, w1)"
  obtains new where "trace w1 = trace w @ new" "files w1 = files w"
    "rests_outside_sessions False new" "\<And>b. in_session_after b new = b" "sessions new = []"
    "sends new = []"
  using assms
proof (cases rule: cooldown_cases)
  case no_rest
  show ?thesis by (rule that[of "[]"]) (use no_rest in auto)
next
  case (rested t1 t2)
  show ?thesis
    by (rule that[of "[(t1, Rest_begin (of_int du)), (t2, Rest_end)]"]) (use rested in auto)
qed

lemma batch_rests_spaced:
  assumes "frames_sessions e session" "\<forall>k. 0 \<le> elapses e k"
    and "batch e session out th du timer srcs w = (r, w')"
    and "case l of None \<Rightarrow> True | Some t0 \<Rightarrow> t0 \<le> timer"
  shows "\<exists>new. trace w' = trace w @ new \<and> rests_spaced (of_int th) l new"
  using assms(3,4)
proof (induction srcs arbitrary: timer w l)
  case Nil
  then show ?case by simp
next
  case (Cons src srcs)
  from Cons.prems(1) show ?case
  proof (cases rule: batch_Cons_cases)
    case (cooldown_fails x)
    from assms(2) cooldown_fails(1) Cons.prems(2) show ?thesis
      by (rule cooldown_spaced) blast
  next
    case (skipped timer' w1)
    from assms(2) skipped(1) Cons.prems(2) obtain new1 where
      1: "trace w1 = trace w @ new1" "rests_spaced (of_int th) l new1"
      "case last_rest_end l new1 of None \<Rightarrow> True | Some t0 \<Rightarrow> t0 \<le> timer'"
      by (rule cooldown_spaced) blast
    from Cons.IH[OF skipped(3) 1(3)] obtain new2 where
      2: "trace w' = trace w1 @ new2" "rests_spaced (of_int th) (last_rest_end l new1) new2"
      by blast
    have "trace w' = trace w @ (new1 @ new2)" using 1(1) 2(1) by simp
    moreover have "rests_spaced (of_int th) l (new1 @ new2)"
      using 1(2) 2(2) by (simp add: rests_spaced_append)
    ultimately show ?thesis by blast
  next
    case (mkdir_fails timer' w1 x)
    from assms(2) mkdir_fails(1) Cons.prems(2) obtain new1 where
      1: "trace w1 = trace w @ new1" "rests_spaced (of_int th) l new1"
      by (rule cooldown_spaced) blast
    from mkdir_facts(3)[OF mkdir_fails(3)] have "trace w' = trace w1" by simp
    with 1 show ?thesis by auto
  next
    case (session_fails timer' w1 w2 x)
    from assms(2) session_fails(1) Cons.prems(2) obtain new1 where
      1: "trace w1 = trace w @ new1" "rests_spaced (of_int th) l new1"
      by (rule cooldown_spaced) blast
    from mkdir_facts(2)[OF session_fails(3)] obtain t where
      2: "trace w2 = trace w1 @ [(t, Mkdir (out src))]" by blast
    let ?v = "record_event (now w2) (Session_begin src (out src)) w2"
    note f = frames_sessionsD[OF assms(1) session_fails(4)]
    have "trace w' = trace w @ (new1 @ [(t, Mkdir (out src)),
              (now w2, Session_begin src (out src))] @ since ?v w')"
      using 1(1) 2 f(1) by simp
    moreover have "rests_spaced (of_int th) l (new1 @ [(t, Mkdir (out src)),
              (now w2, Session_begin src (out src))] @ since ?v w')"
      using 1(2) no_marker_facts(1)[OF f(2)] by (simp add: rests_spaced_append)
    ultimately show ?thesis by blast
  next
    case (continues timer' w1 w2 w3)
    from assms(2) continues(1) Cons.prems(2) obtain new1 where
      1: "trace w1 = trace w @ new1" "rests_spaced (of_int th) l new1"
      "case last_rest_end l new1 of None \<Rightarrow> True | Some t0 \<Rightarrow> t0 \<le> timer'"
      by (rule cooldown_spaced) blast
    from mkdir_facts(2)[OF continues(3)] obtain t where
      2: "trace w2 = trace w1 @ [(t, Mkdir (out src))]" by blast
    let ?v = "record_event (now w2) (Session_begin src (out src)) w2"
    let ?v' = "record_event (now w3) Session_end w3"
    note f = frames_sessionsD[OF assms(1) continues(4)]
    from Cons.IH[OF continues(5) 1(3)] obtain new2 where
      3: "trace w' = trace ?v' @ new2" "rests_spaced (of_int th) (last_rest_end l new1) new2"
      by blast
    let ?mid = "[(t, Mkdir (out src)), (now w2, Session_begin src (out src))] @ since ?v w3
                  @ [(now w3, Session_end)]"
    have "trace w' = trace w @ (new1 @ ?mid @ new2)"
      using 1(1) 2 f(1) 3(1) by simp
    moreover have "rests_spaced (of_int th) l (new1 @ ?mid @ new2)"
      using 1(2) 3(2) no_marker_facts(1,2)[OF f(2)]
      by (simp add: rests_spaced_append last_rest_end_append)
    ultimately show ?thesis by blast
  qed
qed

lemma batch_rests_outside:
  assumes "frames_sessions e session"
    and "batch e session out th du timer srcs w = (r, w')"
  shows "\<exists>new. trace w' = trace w @ new \<and> rests_outside_sessions False new"
  using assms(2)
proof (induction srcs arbitrary: timer w)
  case Nil
  then show ?case by simp
next
  case (Cons src srcs)
  from Cons.prems(1) show ?case
  proof (cases rule: batch_Cons_cases)
    case (cooldown_fails x)
    from cooldown_fails(1) show ?thesis by (rule cooldown_marks) blast
  next
    case (skipped timer' w1)
    from skipped(1) obtain new1 where
      1: "trace w1 = trace w @ new1" "rests_outside_sessions False new1"
      "in_session_after False new1 = False"
      by (rule cooldown_marks) blast
    from Cons.IH[OF skipped(3)] obtain new2 where
      2: "trace w' = trace w1 @ new2" "rests_outside_sessions False new2"
      by blast
    have "trace w' = trace w @ (new1 @ new2)" using 1(1) 2(1) by simp
    moreover have "rests_outside_sessions False (new1 @ new2)"
      using 1(2,3) 2(2) by (simp add: rests_outside_append)
    ultimately show ?thesis by blast
  next
    case (mkdir_fails timer' w1 x)
    from mkdir_fails(1) obtain new1 where
      1: "trace w1 = trace w @ new1" "rests_outside_sessions False new1"
      by (rule cooldown_marks) blast
    from mkdir_facts(3)[OF mkdir_fails(3)] have "trace w' = trace w1" by simp
    with 1 show ?thesis by auto
  next
    case (session_fails timer' w1 w2 x)
    from session_fails(1) obtain new1 where
      1: "trace w1 = trace w @ new1" "rests_outside_sessions False new1"
      "in_session_after False new1 = False"
      by (rule cooldown_marks) blast
    from mkdir_facts(2)[OF session_fails(3)] obtain t where
      2: "trace w2 = trace w1 @ [(t, Mkdir (out src))]" by blast
    let ?v = "record_event (now w2) (Session_begin src (out src)) w2"
    note f = frames_sessionsD[OF assms(1) session_fails(4)]
    have "trace w' = trace w @ (new1 @ [(t, Mkdir (out src)),
              (now w2, Session_begin src (out src))] @ since ?v w')"
      using 1(1) 2 f(1) by simp
    moreover have "rests_outside_sessions False (new1 @ [(t, Mkdir (out src)),
              (now w2, Session_begin src (out src))] @ since ?v w')"
      using 1(2,3) no_marker_facts(3)[OF f(2)] by (simp add: rests_outside_append)
    ultimately show ?thesis by blast
  next
    case (continues timer' w1 w2 w3)
    from continues(1) obtain new1 where
      1: "trace w1 = trace w @ new1" "rests_outside_sessions False new1"
      "in_session_after False new1 = False"
      by (rule cooldown_marks) blast
    from mkdir_facts(2)[OF continues(3)] obtain t where
      2: "trace w2 = trace w1 @ [(t, Mkdir (out src))]" by blast
    let ?v = "record_event (now w2) (Session_begin src (out src)) w2"
    let ?v' = "record_event (now w3) Session_end w3"
    note f = frames_sessionsD[OF assms(1) continues(4)]
    from Cons.IH[OF continues(5)] obtain new2 where
      3: "trace w' = trace ?v' @ new2" "rests_outside_sessions False new2"
      by blast
    let ?mid = "[(t, Mkdir (out src)), (now w2, Session_begin src (out src))] @ since ?v w3
                  @ [(now w3, Session_end)]"
    have "trace w' = trace w @ (new1 @ ?mid @ new2)"
      using 1(1) 2 f(1) 3(1) by simp
    moreover have "rests_outside_sessions False (new1 @ ?mid @ new2)"
      using 1(2,3) 3(2) no_marker_facts(3,4)[OF f(2)]
      by (simp add: rests_outside_append in_session_after_append)
    ultimately show ?thesis by blast
  qed
qed


lemma batch_keeps_existing:
  assumes "frames_sessions e session"
    and "batch e session out th du timer srcs w = (r, w')"
    and "files w d \<noteq> None"
  shows "files w' d = files w d \<and>
         (\<exists>new. trace w' = trace w @ new \<and> (\<forall>x\<in>set (sessions new). snd x = out (fst x) \<and> snd x \<noteq> d))"
  using assms(2,3)
proof (induction srcs arbitrary: timer w)
  case Nil
  then show ?case by simp
next
  case (Cons src srcs)
  from Cons.prems(1) show ?case
  proof (cases rule: batch_Cons_cases)
    case (cooldown_fails x)
    from cooldown_fails(1) show ?thesis by (rule cooldown_marks) auto
  next
    case (skipped timer' w1)
    from skipped(1) obtain new1 where
      1: "trace w1 = trace w @ new1" "files w1 = files w" "sessions new1 = []"
      by (rule cooldown_marks) blast
    from Cons.IH[OF skipped(3)] Cons.prems(2) 1(2) obtain new2 where
      2: "files w' d = files w1 d" "trace w' = trace w1 @ new2"
      "\<forall>x\<in>set (sessions new2). snd x = out (fst x) \<and> snd x \<noteq> d"
      by auto
    have "trace w' = trace w @ (new1 @ new2)" using 1(1) 2(2) by simp
    moreover have "\<forall>x\<in>set (sessions (new1 @ new2)). snd x = out (fst x) \<and> snd x \<noteq> d"
      using 1(3) 2(3) by (auto simp: sessions_append)
    ultimately show ?thesis using 1(2) 2(1) by auto
  next
    case (mkdir_fails timer' w1 x)
    from mkdir_fails(1) obtain new1 where
      1: "trace w1 = trace w @ new1" "files w1 = files w" "sessions new1 = []"
      by (rule cooldown_marks) blast
    from mkdir_facts(1,3)[OF mkdir_fails(3)] have "trace w' = trace w1" "files w' = files w1"
      by simp_all
    with 1 show ?thesis by auto
  next
    case (session_fails timer' w1 w2 x)
    from session_fails(1) obtain new1 where
      1: "trace w1 = trace w @ new1" "files w1 = files w" "sessions new1 = []"
      by (rule cooldown_marks) blast
    from mkdir_facts(1,2)[OF session_fails(3)] obtain t where
      2: "trace w2 = trace w1 @ [(t, Mkdir (out src))]" "files w2 = files w1" by blast
    have ne: "d \<noteq> out src" using session_fails(2) 1(2) Cons.prems(2) by auto
    let ?v = "record_event (now w2) (Session_begin src (out src)) w2"
    note f = frames_sessionsD[OF assms(1) session_fails(4)]
    have "files w' d = files w d" using f(3)[OF ne] 2(2) 1(2) by simp
    moreover have "trace w' = trace w @ (new1 @ [(t, Mkdir (out src)),
              (now w2, Session_begin src (out src))] @ since ?v w')"
      using 1(1) 2 f(1) by simp
    moreover have "\<forall>x\<in>set (sessions (new1 @ [(t, Mkdir (out src)),
              (now w2, Session_begin src (out src))] @ since ?v w')).
              snd x = out (fst x) \<and> snd x \<noteq> d"
      using 1(3) no_marker_facts(5)[OF f(2)] ne by (auto simp: sessions_append)
    ultimately show ?thesis by blast
  next
    case (continues timer' w1 w2 w3)
    from continues(1) obtain new1 where
      1: "trace w1 = trace w @ new1" "files w1 = files w" "sessions new1 = []"
      by (rule cooldown_marks) blast
    from mkdir_facts(1,2)[OF continues(3)] obtain t where
      2: "trace w2 = trace w1 @ [(t, Mkdir (out src))]" "files w2 = files w1" by blast
    have ne: "d \<noteq> out src" using continues(2) 1(2) Cons.prems(2) by auto
    let ?v = "record_event (now w2) (Session_begin src (out src)) w2"
    let ?v' = "record_event (now w3) Session_end w3"
    note f = frames_sessionsD[OF assms(1) continues(4)]
    have keep: "files ?v' d = files w d" using f(3)[OF ne] 2(2) 1(2) by simp
    with Cons.prems(2) have "files ?v' d \<noteq> None" by simp
    from Cons.IH[OF continues(5) this] obtain new2 where
      3: "files w' d = files ?v' d" "trace w' = trace ?v' @ new2"
      "\<forall>x\<in>set (sessions new2). snd x = out (fst x) \<and> snd x \<noteq> d"
      by blast
    let ?mid = "[(t, Mkdir (out src)), (now w2, Session_begin src (out src))] @ since ?v w3
                  @ [(now w3, Session_end)]"
    have "trace w' = trace w @ (new1 @ ?mid @ new2)"
      using 1(1) 2 f(1) 3(2) by simp
    moreover have "\<forall>x\<in>set (sessions (new1 @ ?mid @ new2)). snd x = out (fst x) \<and> snd x \<noteq> d"
      using 1(3) 3(3) no_marker_facts(5)[OF f(2)] ne by (auto simp: sessions_append)
    ultimately show ?thesis using 3(1) keep by auto
  qed
qed

lemma run_cases:
  assumes "run mr ar port dev delay n cm sr rt suf cool e w = (r, w')"
  obtains
    (rejected) "w' = w"
  | (setup_fails) "evolves e {Quiet} {} w w'"
  | (batched) a b timer w3 where "cool = Some (a, b)" "evolves e {Quiet} {} w w3"
      "batch e (\<lambda>src dst. capture_performance src dst port dev delay n cm sr e)
         (derive e mr ar suf) (a * 60) (b * 60) timer (map fst (sort_key snd (rglob e))) w3
       = (r, w')"
proof -
  have c: "\<And>ev v r v'. call e ev id v = (r, v') \<Longrightarrow> kind_of ev = Quiet \<Longrightarrow> evolves e {Quiet} {} v v'"
    by (erule call_evolves) auto
  have split: "w' = w \<or> (\<exists>a b q. cool = Some (a, b) \<and> int_true_divide a b = Inr q \<and> \<not> q > 5
                  \<and> \<not> channel_mismatch n cm)"
  proof (cases "channel_mismatch n cm")
    case True
    with assms show ?thesis by (simp add: run_def)
  next
    case nm: False
    show ?thesis
    proof (cases cool)
      case None
      with assms nm show ?thesis by (simp add: run_def)
    next
      case (Some ab)
      obtain a b where ab: "ab = (a, b)" by (cases ab)
      show ?thesis
      proof (cases "int_true_divide a b")
        case (Inl x)
        with assms nm Some ab show ?thesis by (simp add: run_def)
      next
        case (Inr q)
        show ?thesis
        proof (cases "q > 5")
          case True
          with assms nm Some ab Inr show ?thesis by (simp add: run_def)
        next
          case False
          with nm Some ab Inr show ?thesis by simp
        qed
      qed
    qed
  qed
  show ?thesis
  proof (cases "w' = w")
    case True
    then show ?thesis by (rule rejected)
  next
    case False
    with split obtain a b q where ab: "cool = Some (a, b)" "int_true_divide a b = Inr q"
      "\<not> q > 5" "\<not> channel_mismatch n cm" by blast
    obtain r1 w1 where 1: "call e (Scan mr) id w = (r1, w1)" by (cases "call e (Scan mr) id w")
    have e1: "evolves e {Quiet} {} w w1" using c[OF 1] by simp
    show ?thesis
    proof (cases r1)
      case (Some x)
      with assms ab 1 have "w' = w1" by (simp add: run_def)
      with e1 show ?thesis by (simp add: setup_fails)
    next
      case None
      obtain r2 w2 where 2: "(if rt then call e Realtime id w1 else (None, w1)) = (r2, w2)"
        by (cases "if rt then call e Realtime id w1 else (None, w1)")
      have e2: "evolves e {Quiet} {} w1 w2"
        using 2 c[of Realtime w1 r2 w2] by (auto simp: evolves_refl split: if_splits)
      show ?thesis
      proof (cases r2)
        case (Some x)
        with assms ab 1 None 2 have "w' = w2" by (simp add: run_def Let_def)
        with evolves_trans[OF e1 e2] show ?thesis by (simp add: setup_fails)
      next
        case None': None
        obtain r3 w3 where 3: "read_clock e w2 = (r3, w3)" by (cases "read_clock e w2")
        note e3 = evolves_trans[OF evolves_trans[OF e1 e2] read_clock_evolves[OF 3]]
        show ?thesis
        proof (cases r3)
          case (Inl x)
          with assms ab 1 None 2 None' 3 have "w' = w3" by (simp add: run_def Let_def)
          with e3 show ?thesis by (simp add: setup_fails)
        next
          case (Inr timer)
          with assms ab 1 None 2 None' 3 have
            "batch e (\<lambda>src dst. capture_performance src dst port dev delay n cm sr e)
               (derive e mr ar suf) (a * 60) (b * 60) timer (map fst (sort_key snd (rglob e))) w3
             = (r, w')" by (simp add: run_def Let_def)
          with ab(1) e3 show ?thesis by (rule batched)
        qed
      qed
    qed
  qed
qed

lemma quiet_segment:
  assumes "evolves e {Quiet} {} w w'"
  shows "trace w' = trace w @ since w w'" "\<forall>x\<in>set (since w w'). kind_of (snd x) \<noteq> Marker"
    "files w' = files w"
proof -
  show "trace w' = trace w @ since w w'" by (rule evolves_since[OF assms])
  show "\<forall>x\<in>set (since w w'). kind_of (snd x) \<noteq> Marker"
    using evolves_kinds[OF assms] by fastforce
  show "files w' = files w" using assms by (auto simp: evolves_def)
qed

lemma opening_failure:
  assumes ok: "\<not> channel_mismatch n cm"
    and parse: "MidiFile e src v = (Inr mid, v1)"
    and fails: "fst (open_output e port v1) \<noteq> None
       \<or> fst (SoundFile e dst sr n (snd (open_output e port v1))) \<noteq> None
       \<or> fst (InputStream e dev sr n cm
                (snd (SoundFile e dst sr n (snd (open_output e port v1))))) \<noteq> None"
    and cp: "capture_performance src dst port dev delay n cm sr e v = (r, v')"
  shows "r \<noteq> None \<and> evolves e {Quiet, Reset} {dst} v v'"
proof -
  let ?S = "{Quiet, Reset}" and ?P = "{dst}"
  have wop: "with_out_port e dst port dev sr n cm mid v1 = (r, v')"
    using ok parse cp by (simp add: capture_performance_def)
  have e1: "evolves e ?S ?P v v1" by (rule MidiFile_evolves[OF parse])
  obtain r2 v2 where 2: "open_output e port v1 = (r2, v2)" by (cases "open_output e port v1")
  have e2: "evolves e ?S ?P v1 v2" by (rule open_output_evolves[OF 2]) simp
  show ?thesis
  proof (cases r2)
    case (Some x)
    with wop 2 have "r = Some x" "v' = v2" by (auto simp: with_out_port_def)
    with evolves_trans[OF e1 e2] show ?thesis by simp
  next
    case None
    obtain rs vs where s: "with_sound_file e dst dev sr n cm mid v2 = (rs, vs)"
      by (cases "with_sound_file e dst dev sr n cm mid v2")
    obtain r5 v5 where 5: "close_port e vs = (r5, v5)" by (cases "close_port e vs")
    have e5: "evolves e ?S ?P vs v5" by (rule close_port_evolves[OF 5]) simp
    have sub: "rs \<noteq> None \<and> evolves e ?S ?P v2 vs"
    proof -
      obtain r3 v3 where 3: "SoundFile e dst sr n v2 = (r3, v3)"
        by (cases "SoundFile e dst sr n v2")
      have e3: "evolves e ?S ?P v2 v3" by (rule SoundFile_evolves[OF 3]) simp_all
      show ?thesis
      proof (cases r3)
        case (Some x)
        with s 3 have "rs = Some x" "vs = v3" by (auto simp: with_sound_file_def)
        with e3 show ?thesis by simp
      next
        case None': None
        obtain r4 v4 where 4: "InputStream e dev sr n cm v3 = (r4, v4)"
          by (cases "InputStream e dev sr n cm v3")
        have e4: "evolves e ?S ?P v3 v4" by (rule InputStream_evolves[OF 4]) simp
        from fails 2 None 3 None' 4 obtain x where x: "r4 = Some x" by auto
        have sb: "session_body e dst dev sr n cm mid v3 = (Some x, v4)"
          using 4 x by (simp add: session_body_def)
        obtain rg vg where g: "guarded e dst dev sr n cm mid v3 = (rg, vg)"
          by (cases "guarded e dst dev sr n cm mid v3")
        have gg: "rg \<noteq> None \<and> evolves e ?S ?P v4 vg"
        proof (cases "x = KeyboardInterrupt")
          case True
          with g sb have t: "teardown e dst v4 = (rg, vg)" by (simp add: guarded_def)
          from teardown_raises[OF t] teardown_evolves[OF t, of ?S ?P] show ?thesis by simp
        next
          case False
          with g sb have "rg = Some x" "vg = v4"
            by (auto simp: guarded_def split: exn.splits)
          then show ?thesis by (simp add: evolves_refl)
        qed
        obtain r6 v6 where 6: "close_file e dst vg = (r6, v6)" by (cases "close_file e dst vg")
        have e6: "evolves e ?S ?P vg v6" by (rule close_file_evolves[OF 6]) simp
        have "rs \<noteq> None \<and> vs = v6"
          using s 3 None' g 6 gg by (auto simp: with_sound_file_def split: option.splits)
        with evolves_trans[OF evolves_trans[OF evolves_trans[OF e3 e4] conjunct2[OF gg]] e6]
        show ?thesis by simp
      qed
    qed
    have "r \<noteq> None \<and> v' = v5"
      using wop 2 None s 5 sub by (auto simp: with_out_port_def split: option.splits)
    with evolves_trans[OF evolves_trans[OF evolves_trans[OF e1 e2] conjunct2[OF sub]] e5]
    show ?thesis by simp
  qed
qed

lemmas batch_env_defs = long_env_def no_port_env_def resumed_world_def quiet_env_def empty_world_def

section \<open>The claims\<close>

text \<open>
  C1. When the channel check passes and the MIDI file is read, a session that returns
  normally has sent to the output port exactly the non-meta events of the source, in source
  order. However the session ends (an interrupt, a failing device), what it has sent is an
  initial segment of them: a meta event is never sent. That meta events advance the timing
  accumulator is the \<open>acc + time m\<close> of \<open>schedule\<close> in the theorem of C4.
\<close>

theorem dispatches_non_meta_events:
  assumes "\<not> channel_mismatch num_channels channel_map"
    and "MidiFile e input_midi_filepath w = (Inr mid, w1)"
    and "capture_performance input_midi_filepath output_audio_filepath output_port_name
           input_audio_device delay_ms num_channels channel_map sample_rate e w = (r, w')"
  shows "(r = None \<longrightarrow>
            map snd (sends (since w w')) = filter (\<lambda>msg. \<not> is_MetaMessage msg) mid)
       \<and> (\<exists>k. map snd (sends (since w w')) = take k (filter (\<lambda>msg. \<not> is_MetaMessage msg) mid))"
proof -
  from assms have "with_out_port e output_audio_filepath output_port_name input_audio_device
      sample_rate num_channels channel_map mid w1 = (r, w')"
    by (simp add: capture_performance_def)
  from delivered_pre[OF quiet_prims(3)[OF assms(2)] with_out_port_delivered[OF this]]
  show ?thesis unfolding delivered_def by blast
qed

theorem dispatches_non_meta_events_witness:
  "fst (capture_performance ''in/a.mid'' ''out/a.wav'' ''port'' 0 500 2 None 44100
          quiet_env empty_world) = None
   \<and> map snd (sends (since empty_world
         (snd (capture_performance ''in/a.mid'' ''out/a.wav'' ''port'' 0 500 2 None 44100
                 quiet_env empty_world))))
     = filter (\<lambda>msg. \<not> is_MetaMessage msg) [Message 0 [144, 60, 64], MetaMessage 1 [47]]"
proof -
  let ?run = "capture_performance ''in/a.mid'' ''out/a.wav'' ''port'' 0 500 2 None 44100
                quiet_env empty_world"
  have 1: "\<not> channel_mismatch 2 None" by (simp add: channel_mismatch_def)
  have 2: "MidiFile quiet_env ''in/a.mid'' empty_world
             = (Inr [Message 0 [144, 60, 64], MetaMessage 1 [47]], advance quiet_env 0 empty_world)"
    by (simp add: MidiFile_def quiet_env_def empty_world_def)
  have 3: "?run = (fst ?run, snd ?run)" by simp
  have 4: "fst ?run = None"
    by (simp add: quiet_env_def empty_world_def library_defs session_defs Let_def)
  from dispatches_non_meta_events[OF 1 2 3] 4 show ?thesis by blast
qed





text \<open>
  C3, as the code has it. The handler is straight-line code: \<^verbatim>\<open>out_port.reset()\<close> is reached
  only when \<^verbatim>\<open>file.close()\<close> and the deletion of the file have both returned. If both return,
  the reset is called once (and is received unless the call itself raises); if one of them
  raises, the handler is left with that exception and makes no reset.
\<close>

theorem reset_only_after_audio_teardown:
  assumes "close_file e p w = (r1, w1)"
    and "unlink e p w1 = (r2, w2)"
    and "reset e w2 = (r3, w3)"
    and "teardown e p w = (r, w')"
  shows "if r1 = None \<and> r2 = None
         then resets (since w w') = (if r3 = None then 1 else 0)
         else resets (since w w') = 0 \<and> r = (if r1 = None then r2 else r1)"
proof -
  have q1: "evolves e {Quiet} UNIV w w1" by (rule close_file_evolves[OF assms(1)]) simp
  have q2: "evolves e {Quiet} UNIV w1 w2" by (rule unlink_evolves[OF assms(2)]) simp_all
  note q12 = evolves_trans[OF q1 q2]
  show ?thesis
  proof (cases r1)
    case (Some x)
    with assms have "r = r1" "w' = w1" by (auto simp: teardown_def)
    with Some evolves_no_resets[OF q1] show ?thesis by simp
  next
    case None
    show ?thesis
    proof (cases r2)
      case (Some x)
      with None assms have "r = r2" "w' = w2" by (auto simp: teardown_def)
      with None Some evolves_no_resets[OF q12] show ?thesis by simp
    next
      case None': None
      show ?thesis
      proof (cases r3)
        case (Some x)
        with None None' assms have "r = r3" "w' = w3" by (auto simp: teardown_def)
        moreover have "trace w3 = trace w2" 
          using assms(3) Some by (auto simp: reset_def call_def split: option.splits)
        then have "since w w3 = since w w2" by (simp add: since_def)
        ultimately show ?thesis using None None' Some evolves_no_resets[OF q12] by simp
      next
        case None'': None
        obtain r4 w4 where 4: "close_port e w3 = (r4, w4)" by (cases "close_port e w3")
        have q4: "evolves e {Quiet} UNIV w3 w4" by (rule close_port_evolves[OF 4]) simp
        have "w' = w4" using None None' None'' assms 4
          by (auto simp: teardown_def split: option.splits)
        have "\<exists>t. trace w3 = trace w2 @ [(t, Midi_reset)]"
          using assms(3) None'' by (auto simp: reset_def call_def split: option.splits)
        then obtain t where t3: "trace w3 = trace w2 @ [(t, Midi_reset)]" ..
        have "trace w4 = trace w @ (since w w2 @ [(t, Midi_reset)] @ since w3 w4)"
          by (simp add: evolves_since[OF q4] t3 evolves_since[OF q12])
        then have "since w w4 = since w w2 @ [(t, Midi_reset)] @ since w3 w4"
          by (rule since_append)
        then have "resets (since w w4) = 1"
          using evolves_no_resets[OF q12] evolves_no_resets[OF q4]
          by (simp add: resets_append) (simp add: resets_def)
        with \<open>w' = w4\<close> None None' None'' show ?thesis by simp
      qed
    qed
  qed
qed

theorem reset_only_after_audio_teardown_witness:
  "fst (teardown unlink_fails_env ''out/a.wav'' recording_world) = Some (Error ''PermissionError'')
   \<and> resets (since recording_world (snd (teardown unlink_fails_env ''out/a.wav'' recording_world)))
       = 0"
proof -
  let ?e = unlink_fails_env
  let ?c = "close_file ?e ''out/a.wav'' recording_world"
  let ?u = "unlink ?e ''out/a.wav'' (snd ?c)"
  let ?r = "reset ?e (snd ?u)"
  let ?t = "teardown ?e ''out/a.wav'' recording_world"
  have 1: "?c = (None, snd ?c)" by (simp add: env_defs library_defs)
  have 2: "?u = (Some (Error ''PermissionError''), snd ?u)" by (simp add: env_defs library_defs)
  have 3: "?r = (fst ?r, snd ?r)" by simp
  have 4: "?t = (fst ?t, snd ?t)" by simp
  from reset_only_after_audio_teardown[OF 1 2 3 4] show ?thesis by simp
qed

text \<open>
  C3, as stated, fails. The operator interrupts the player loop and the deletion of the
  partial file raises \<open>PermissionError\<close>: the session ends with that exception, the port is
  closed by its \<^verbatim>\<open>with\<close> block but never reset, and the file is still there.
\<close>

theorem failed_unlink_skips_reset:
  "fst (capture_performance ''in/a.mid'' ''out/a.wav'' ''port'' 0 500 2 None 44100
          unlink_fails_env empty_world) = Some (Error ''PermissionError'')
   \<and> map snd (trace (snd (capture_performance ''in/a.mid'' ''out/a.wav'' ''port'' 0 500 2 None
                             44100 unlink_fails_env empty_world)))
     = [Midi_open ''port'', Wav_open ''out/a.wav'' 44100 2, Stream_open 0 44100 2 None,
        Stream_close, Wav_close ''out/a.wav'', Midi_close]
   \<and> files (snd (capture_performance ''in/a.mid'' ''out/a.wav'' ''port'' 0 500 2 None 44100
                    unlink_fails_env empty_world)) ''out/a.wav'' = Some []"
  by (simp add: env_defs library_defs session_defs Let_def)

text \<open>
  C4. Let the clock not run backwards and a sleep last at least as long as requested, both
  read on the input stream's clock (\<open>0 \<le> elapses e k\<close> for every call). Then, however the
  player loop ends, every message it sent was sent at an instant not before \<open>start_time\<close> plus
  the sum of the deltas of all events up to it, meta events included. And an iteration whose
  computed wait is zero or negative is the dispatch of its event at the world the clock
  reading left: no sleep is made.
\<close>

theorem no_early_dispatch:
  assumes "\<forall>k. 0 \<le> elapses e k"
    and "play e start_time 0 mid w = (r, w')"
    and "read_clock e v = (Inr t, v1)"
    and "input_time - (t - start_time) \<le> 0"
  shows "on_time start_time (sends (since w w')) (schedule 0 mid)
       \<and> player_step e start_time input_time msg v = dispatch e msg v1"
proof
  from play_sends[OF assms(2)] assms(1)
  show "on_time start_time (sends (since w w')) (schedule 0 mid)"
    by (auto simp: on_time_def since_def)
  from assms(3,4) show "player_step e start_time input_time msg v = dispatch e msg v1"
    by (simp add: player_step_def Let_def)
qed

theorem no_early_dispatch_witness:
  "sends (since (advance late_env 0 empty_world)
            (snd (play late_env (1 / 4) 0 (midi_events late_env ''in/a.mid'')
                    (advance late_env 0 empty_world))))
     = [(1 / 2, Message 0 [144, 60, 64]), (7 / 4, Message (1 / 2) [128, 60, 64])]
   \<and> schedule 0 (midi_events late_env ''in/a.mid'')
     = [(0, Message 0 [144, 60, 64]), (3 / 2, Message (1 / 2) [128, 60, 64])]
   \<and> on_time (1 / 4)
       (sends (since (advance late_env 0 empty_world)
                 (snd (play late_env (1 / 4) 0 (midi_events late_env ''in/a.mid'')
                         (advance late_env 0 empty_world)))))
       (schedule 0 (midi_events late_env ''in/a.mid''))
   \<and> player_step late_env (1 / 4) 0 (Message 0 [144, 60, 64]) (advance late_env 0 empty_world)
     = dispatch late_env (Message 0 [144, 60, 64])
         (advance late_env 0 (advance late_env 0 empty_world))"
proof -
  let ?w = "advance late_env 0 empty_world"
  let ?p = "play late_env (1 / 4) 0 (midi_events late_env ''in/a.mid'') ?w"
  have 1: "\<forall>k. 0 \<le> elapses late_env k" by (simp add: late_env_def)
  have 2: "?p = (fst ?p, snd ?p)" by simp
  have 3: "read_clock late_env ?w = (Inr (1 / 2), advance late_env 0 ?w)"
    by (simp add: read_clock_def late_env_def empty_world_def advance_def)
  have 4: "(0::rat) - (1 / 2 - 1 / 4) \<le> 0" by simp
  have 5: "sends (since ?w (snd ?p))
             = [(1 / 2, Message 0 [144, 60, 64]), (7 / 4, Message (1 / 2) [128, 60, 64])]"
    by (simp add: since_def late_env_def empty_world_def library_defs Let_def)
  have 6: "schedule 0 (midi_events late_env ''in/a.mid'')
     = [(0, Message 0 [144, 60, 64]), (3 / 2, Message (1 / 2) [128, 60, 64])]"
    by (simp add: late_env_def)
  from no_early_dispatch[OF 1 2 3 4] 5 6 show ?thesis by simp
qed

text \<open>
  C5, as the code has it. A cooldown ratio that line 213 computes (the quotient of the two
  integers as a double) above 5.0, an absent cooldown, or a non-empty \<open>channel_map\<close> whose
  length differs from \<open>num_channels\<close> each make \<open>run\<close> leave with \<open>SystemExit 1\<close> before any
  library call: the world is unchanged, so no session ran, no file was created and no device
  was touched.
\<close>

theorem run_rejects_configuration:
  assumes "(\<exists>cm. channel_map = Some cm \<and> cm \<noteq> [] \<and> num_channels \<noteq> int (length cm))
         \<or> cooldown_parameters = None
         \<or> (\<exists>threshold rest ratio. cooldown_parameters = Some (threshold, rest)
                \<and> int_true_divide threshold rest = Inr ratio \<and> ratio > 5)"
  shows "run input_midi_root output_audio_root output_port_name input_audio_device delay_ms
           num_channels channel_map sample_rate realtime output_suffix cooldown_parameters e w
         = (Some (SystemExit 1), w)"
  using assms by (auto simp: run_def channel_mismatch_def split: option.splits)

theorem run_rejects_configuration_witness:
  "run ''in'' ''out'' ''port'' 0 500 3 (Some [2, 3]) 44100 True '''' (Some (15, 3))
     quiet_env empty_world = (Some (SystemExit 1), empty_world)
   \<and> run ''in'' ''out'' ''port'' 0 500 2 None 44100 True '''' (Some (16, 3))
       quiet_env empty_world = (Some (SystemExit 1), empty_world)
   \<and> run ''in'' ''out'' ''port'' 0 500 2 None 44100 True '''' None
       quiet_env empty_world = (Some (SystemExit 1), empty_world)"
proof (intro conjI)
  show "run ''in'' ''out'' ''port'' 0 500 3 (Some [2, 3]) 44100 True '''' (Some (15, 3))
     quiet_env empty_world = (Some (SystemExit 1), empty_world)"
    by (rule run_rejects_configuration) simp
  show "run ''in'' ''out'' ''port'' 0 500 2 None 44100 True '''' (Some (16, 3))
       quiet_env empty_world = (Some (SystemExit 1), empty_world)"
  proof (rule run_rejects_configuration)
    have "Some (16 :: int, 3 :: int) = Some (16, 3)
        \<and> int_true_divide 16 3 = Inr (6004799503160661 / 1125899906842624)
        \<and> (6004799503160661 / 1125899906842624 :: rat) > 5"
      by (simp add: quotient_16_3)
    then show "(\<exists>cm. None = Some cm \<and> cm \<noteq> [] \<and> (2 :: int) \<noteq> int (length cm))
        \<or> Some (16 :: int, 3 :: int) = None
        \<or> (\<exists>threshold rest ratio. Some (16, 3) = Some (threshold, rest)
               \<and> int_true_divide threshold rest = Inr ratio \<and> ratio > 5)"
      by blast
  qed
  show "run ''in'' ''out'' ''port'' 0 500 2 None 44100 True '''' None
       quiet_env empty_world = (Some (SystemExit 1), empty_world)"
    by (rule run_rejects_configuration) simp
qed

text \<open>
  C5, as stated, fails twice. With \<open>channel_map = []\<close> and \<open>num_channels = 2\<close> the two
  differ, yet the batch is not rejected: it runs the session of its one source and returns
  normally. And the cooldown \<open>(500000000000000001, 100000000000000000)\<close> has a ratio above 5,
  but its quotient as a double is 5.0: the batch is not rejected either.
\<close>

theorem configuration_not_rejected:
  "(2 :: int) \<noteq> int (length ([] :: int list))
   \<and> fst (run ''in'' ''out'' ''port'' 0 500 2 (Some []) 44100 False '''' (Some (15, 3))
            quiet_env empty_world) = None
   \<and> (0, Session_begin ''in/a.mid'' ''out/a.wav'')
       \<in> set (trace (snd (run ''in'' ''out'' ''port'' 0 500 2 (Some []) 44100 False ''''
                             (Some (15, 3)) quiet_env empty_world)))
   \<and> (5 :: rat) < 500000000000000001 / 100000000000000000
   \<and> fst (run ''in'' ''out'' ''port'' 0 500 2 None 44100 False ''''
            (Some (500000000000000001, 100000000000000000)) quiet_env empty_world) = None
   \<and> (0, Session_begin ''in/a.mid'' ''out/a.wav'')
       \<in> set (trace (snd (run ''in'' ''out'' ''port'' 0 500 2 None 44100 False ''''
                             (Some (500000000000000001, 100000000000000000))
                             quiet_env empty_world)))"
  by (simp add: run_def quotients quiet_env_def empty_world_def library_defs session_defs Let_def)

text \<open>
  C6, as the code has it. Let the batch reach the session of its current source (no forced
  rest failed, the output is not there yet, its directory was made), let the channel check
  pass and the MIDI file be read, and let the opening of the MIDI port, of the destination
  file or of the input stream raise. Then the batch ends there with an exception: nothing was
  sent to the MIDI output, and the only session called is this one, so no later source is
  processed. Neither \<open>capture_performance\<close> nor the loop of \<open>run\<close> catches the exception.
\<close>

theorem device_error_ends_batch:
  assumes "cooldown e cooldown_threshold_sec cooldown_duration_sec cooldown_timer w
           = (Inr timer, w1)"
    and "files w1 (output_of input_midi_filepath) = None"
    and "call e (Mkdir (output_of input_midi_filepath)) id w1 = (None, w2)"
    and "\<not> channel_mismatch num_channels channel_map"
    and "MidiFile e input_midi_filepath
           (record_event (now w2)
              (Session_begin input_midi_filepath (output_of input_midi_filepath)) w2)
         = (Inr mid, w3)"
    and "fst (open_output e output_port_name w3) \<noteq> None
       \<or> fst (SoundFile e (output_of input_midi_filepath) sample_rate num_channels
                (snd (open_output e output_port_name w3))) \<noteq> None
       \<or> fst (InputStream e input_audio_device sample_rate num_channels channel_map
                (snd (SoundFile e (output_of input_midi_filepath) sample_rate num_channels
                        (snd (open_output e output_port_name w3))))) \<noteq> None"
    and "batch e
           (\<lambda>src dst. capture_performance src dst output_port_name input_audio_device delay_ms
                         num_channels channel_map sample_rate e)
           output_of cooldown_threshold_sec cooldown_duration_sec cooldown_timer
           (input_midi_filepath # midi_filepaths) w = (r, w')"
  shows "r \<noteq> None
       \<and> sends (since w w') = []
       \<and> sessions (since w w') = [(input_midi_filepath, output_of input_midi_filepath)]"
proof -
  let ?dst = "output_of input_midi_filepath"
  let ?v = "record_event (now w2) (Session_begin input_midi_filepath ?dst) w2"
  obtain rc vc where cp: "capture_performance input_midi_filepath ?dst output_port_name
      input_audio_device delay_ms num_channels channel_map sample_rate e ?v = (rc, vc)"
    by (cases "capture_performance input_midi_filepath ?dst output_port_name
      input_audio_device delay_ms num_channels channel_map sample_rate e ?v")
  from opening_failure[OF assms(4,5,6) cp]
  have rc: "rc \<noteq> None" and ev: "evolves e {Quiet, Reset} {?dst} ?v vc" by simp_all
  from assms(7,1,2,3) cp rc have res: "r = rc" "w' = vc"
    by (auto simp: Let_def split: option.splits)
  from assms(1) obtain new1 where
    1: "trace w1 = trace w @ new1" "sessions new1 = []" "sends new1 = []"
    by (rule cooldown_marks) blast
  from mkdir_facts(2)[OF assms(3)] obtain t where
    2: "trace w2 = trace w1 @ [(t, Mkdir ?dst)]" by blast
  have k: "\<forall>x\<in>set (since ?v vc). kind_of (snd x) \<noteq> Marker"
    using evolves_kinds[OF ev] by fastforce
  have "trace w' = trace w @ (new1 @ [(t, Mkdir ?dst),
            (now w2, Session_begin input_midi_filepath ?dst)] @ since ?v vc)"
    using 1(1) 2 evolves_since[OF ev] res by simp
  then have "since w w' = new1 @ [(t, Mkdir ?dst),
            (now w2, Session_begin input_midi_filepath ?dst)] @ since ?v vc"
    by (rule since_append)
  with 1(2,3) no_marker_facts(5)[OF k] evolves_no_sends[OF ev] rc res show ?thesis
    by (simp add: sends_append sessions_append)
qed

theorem device_error_ends_batch_witness:
  "fst (batch no_port_env
          (\<lambda>src dst. capture_performance src dst ''port'' 0 500 2 None 44100 no_port_env)
          (derive no_port_env ''in'' ''out'' '''') 900 180 0 [''in/a.mid'', ''in/b.mid'']
          (empty_world\<lparr>tick := 2\<rparr>)) = Some (Error ''OSError'')
   \<and> sends (since (empty_world\<lparr>tick := 2\<rparr>)
        (snd (batch no_port_env
                (\<lambda>src dst. capture_performance src dst ''port'' 0 500 2 None 44100 no_port_env)
                (derive no_port_env ''in'' ''out'' '''') 900 180 0 [''in/a.mid'', ''in/b.mid'']
                (empty_world\<lparr>tick := 2\<rparr>)))) = []
   \<and> sessions (since (empty_world\<lparr>tick := 2\<rparr>)
        (snd (batch no_port_env
                (\<lambda>src dst. capture_performance src dst ''port'' 0 500 2 None 44100 no_port_env)
                (derive no_port_env ''in'' ''out'' '''') 900 180 0 [''in/a.mid'', ''in/b.mid'']
                (empty_world\<lparr>tick := 2\<rparr>)))) = [(''in/a.mid'', ''out/a.wav'')]"
proof -
  let ?e = no_port_env
  let ?w = "empty_world\<lparr>tick := 2\<rparr>"
  let ?out = "derive ?e ''in'' ''out'' ''''"
  let ?B = "batch ?e (\<lambda>src dst. capture_performance src dst ''port'' 0 500 2 None 44100 ?e)
              ?out 900 180 0 [''in/a.mid'', ''in/b.mid''] ?w"
  let ?w1 = "snd (cooldown ?e 900 180 0 ?w)"
  let ?w2 = "snd (call ?e (Mkdir (?out ''in/a.mid'')) id ?w1)"
  let ?v = "record_event (now ?w2) (Session_begin ''in/a.mid'' (?out ''in/a.mid'')) ?w2"
  let ?w3 = "snd (MidiFile ?e ''in/a.mid'' ?v)"
  have d: "?out ''in/a.mid'' = ''out/a.wav''" by (simp add: batch_env_defs)
  have 1: "cooldown ?e 900 180 0 ?w = (Inr 0, ?w1)"
    by (simp add: batch_env_defs library_defs)
  have 2: "files ?w1 (?out ''in/a.mid'') = None"
    by (simp add: batch_env_defs library_defs)
  have 3: "call ?e (Mkdir (?out ''in/a.mid'')) id ?w1 = (None, ?w2)"
    by (simp add: batch_env_defs library_defs)
  have 4: "\<not> channel_mismatch 2 None" by (simp add: channel_mismatch_def)
  have 5: "MidiFile ?e ''in/a.mid'' ?v = (Inr (midi_events ?e ''in/a.mid''), ?w3)"
    by (simp add: batch_env_defs library_defs)
  have 6: "fst (open_output ?e ''port'' ?w3) \<noteq> None"
    by (simp add: batch_env_defs library_defs)
  have 7: "?B = (fst ?B, snd ?B)" by simp
  have 8: "fst ?B = Some (Error ''OSError'')"
    by (simp add: batch_env_defs library_defs session_defs Let_def)
  from device_error_ends_batch[OF 1 2 3 4 5 disjI1[OF 6] 7] 8 show ?thesis
    by (simp add: d)
qed

text \<open>
  C6, as stated, fails. The batch has three sources and the MIDI port cannot be opened for the
  first: \<open>run\<close> ends with the \<open>OSError\<close>, and the trace shows the first session called and
  nothing after it. The batch does not continue with the next source.
\<close>

theorem device_error_stops_run:
  "map fst (sort_key snd (rglob no_port_env)) = [''in/a.mid'', ''in/b.mid'', ''in/c.mid'']
   \<and> fst (run ''in'' ''out'' ''port'' 0 500 2 None 44100 False '''' (Some (15, 3))
            no_port_env empty_world) = Some (Error ''OSError'')
   \<and> map snd (trace (snd (run ''in'' ''out'' ''port'' 0 500 2 None 44100 False ''''
                             (Some (15, 3)) no_port_env empty_world)))
     = [Scan ''in'', Mkdir ''out/a.wav'', Session_begin ''in/a.mid'' ''out/a.wav'']"
  by (simp add: run_def quotients batch_env_defs library_defs session_defs Let_def)

text \<open>
  C7. Let the clock not run backwards and a sleep last at least as long as requested. In every
  run with cooldown parameters \<open>(playtime_min, sleep_min)\<close>, however it ends, each forced rest
  begins at least \<open>playtime_min * 60\<close> seconds after the end of the forced rest before it; and
  no forced rest begins between the call of a session and its return: the threshold is looked
  at between sessions only.
\<close>

theorem cooldown_invariant:
  assumes "\<forall>k. 0 \<le> elapses e k"
    and "run input_midi_root output_audio_root output_port_name input_audio_device delay_ms
           num_channels channel_map sample_rate realtime output_suffix
           (Some (playtime_min, sleep_min)) e w = (r, w')"
  shows "rests_spaced (of_int (playtime_min * 60)) None (since w w')
       \<and> rests_outside_sessions False (since w w')"
  using assms(2)
proof (cases rule: run_cases)
  case rejected
  then show ?thesis by (simp add: since_def)
next
  case setup_fails
  from no_marker_facts(1,3)[OF quiet_segment(2)[OF setup_fails]] show ?thesis by blast
next
  case (batched a b timer w3)
  then have ab: "a = playtime_min" "b = sleep_min" by simp_all
  note q = quiet_segment[OF batched(2)]
  from batch_rests_spaced[OF capture_performance_frames assms(1) batched(3), of None]
  obtain new1 where 1: "trace w' = trace w3 @ new1" "rests_spaced (of_int (a * 60)) None new1"
    by auto
  from batch_rests_outside[OF capture_performance_frames batched(3)]
  obtain new2 where 2: "trace w' = trace w3 @ new2" "rests_outside_sessions False new2"
    by auto
  from 1(1) 2(1) have "new2 = new1" by simp
  have "since w w' = since w w3 @ new1"
    by (rule since_append) (simp add: 1(1) q(1))
  with 1(2) 2(2) \<open>new2 = new1\<close> no_marker_facts(1-4)[OF q(2)] ab show ?thesis
    by (simp add: rests_spaced_append rests_outside_append)
qed

theorem cooldown_invariant_witness:
  "filter (\<lambda>x. kind_of (snd x) = Marker)
     (since empty_world
        (snd (run ''in'' ''out'' ''port'' 0 500 2 None 44100 False '''' (Some (1, 1))
                long_env empty_world)))
   = [(0, Session_begin ''in/a.mid'' ''out/a.wav''), (103, Session_end),
      (103, Rest_begin 60), (163, Rest_end),
      (163, Session_begin ''in/b.mid'' ''out/b.wav''), (266, Session_end),
      (266, Rest_begin 60), (326, Rest_end),
      (326, Session_begin ''in/c.mid'' ''out/c.wav''), (429, Session_end)]
   \<and> rests_spaced 60 None
       (since empty_world
          (snd (run ''in'' ''out'' ''port'' 0 500 2 None 44100 False '''' (Some (1, 1))
                  long_env empty_world)))
   \<and> rests_outside_sessions False
       (since empty_world
          (snd (run ''in'' ''out'' ''port'' 0 500 2 None 44100 False '''' (Some (1, 1))
                  long_env empty_world)))"
proof -
  let ?R = "run ''in'' ''out'' ''port'' 0 500 2 None 44100 False '''' (Some (1, 1))
              long_env empty_world"
  have 1: "\<forall>k. 0 \<le> elapses long_env k" by (simp add: long_env_def)
  have 2: "?R = (fst ?R, snd ?R)" by simp
  have 3: "filter (\<lambda>x. kind_of (snd x) = Marker) (since empty_world (snd ?R))
   = [(0, Session_begin ''in/a.mid'' ''out/a.wav''), (103, Session_end),
      (103, Rest_begin 60), (163, Rest_end),
      (163, Session_begin ''in/b.mid'' ''out/b.wav''), (266, Session_end),
      (266, Rest_begin 60), (326, Rest_end),
      (326, Session_begin ''in/c.mid'' ''out/c.wav''), (429, Session_end)]"
    by (simp add: since_def run_def quotients batch_env_defs library_defs session_defs Let_def)
  from cooldown_invariant[OF 1 2] 3 show ?thesis by simp
qed

text \<open>
  C8. If the destination derived for a source exists when \<open>run\<close> starts, then when \<open>run\<close>
  ends, however it ends, that file has the same contents, no session was called for that
  source, and none with that destination.
\<close>

theorem existing_output_untouched:
  assumes "run input_midi_root output_audio_root output_port_name input_audio_device delay_ms
           num_channels channel_map sample_rate realtime output_suffix cooldown_parameters e w
           = (r, w')"
    and "files w (derive e input_midi_root output_audio_root output_suffix input_midi_filepath)
           \<noteq> None"
  shows "files w' (derive e input_midi_root output_audio_root output_suffix input_midi_filepath)
           = files w (derive e input_midi_root output_audio_root output_suffix input_midi_filepath)
       \<and> input_midi_filepath \<notin> fst ` set (sessions (since w w'))
       \<and> derive e input_midi_root output_audio_root output_suffix input_midi_filepath
           \<notin> snd ` set (sessions (since w w'))"
  using assms(1)
proof (cases rule: run_cases)
  case rejected
  then show ?thesis by (simp add: since_def)
next
  case setup_fails
  note q = quiet_segment[OF setup_fails]
  from no_marker_facts(5)[OF q(2)] q(3) show ?thesis by simp
next
  case (batched a b timer w3)
  let ?d = "derive e input_midi_root output_audio_root output_suffix input_midi_filepath"
  note q = quiet_segment[OF batched(2)]
  from assms(2) q(3) have "files w3 ?d \<noteq> None" by simp
  from batch_keeps_existing[OF capture_performance_frames batched(3) this]
  obtain new where 1: "files w' ?d = files w3 ?d" "trace w' = trace w3 @ new"
    "\<forall>x\<in>set (sessions new).
       snd x = derive e input_midi_root output_audio_root output_suffix (fst x) \<and> snd x \<noteq> ?d"
    by blast
  have "since w w' = since w w3 @ new"
    by (rule since_append) (simp add: 1(2) q(1))
  then have s: "sessions (since w w') = sessions new"
    using no_marker_facts(5)[OF q(2)] by (simp add: sessions_append)
  from 1(3) have "input_midi_filepath \<notin> fst ` set (sessions new)" by force
  moreover from 1(3) have "?d \<notin> snd ` set (sessions new)" by force
  ultimately show ?thesis using 1(1) q(3) s by simp
qed

theorem existing_output_untouched_witness:
  "files (snd (run ''in'' ''out'' ''port'' 0 500 2 None 44100 False '''' (Some (15, 3))
                 quiet_env resumed_world)) ''out/a.wav'' = Some [[7, 7]]
   \<and> ''in/a.mid'' \<notin> fst ` set (sessions (since resumed_world
         (snd (run ''in'' ''out'' ''port'' 0 500 2 None 44100 False '''' (Some (15, 3))
                 quiet_env resumed_world))))
   \<and> ''out/a.wav'' \<notin> snd ` set (sessions (since resumed_world
         (snd (run ''in'' ''out'' ''port'' 0 500 2 None 44100 False '''' (Some (15, 3))
                 quiet_env resumed_world))))"
proof -
  let ?R = "run ''in'' ''out'' ''port'' 0 500 2 None 44100 False '''' (Some (15, 3))
              quiet_env resumed_world"
  have 1: "?R = (fst ?R, snd ?R)" by simp
  have d: "derive quiet_env ''in'' ''out'' '''' ''in/a.mid'' = ''out/a.wav''"
    by (simp add: quiet_env_def)
  have 2: "files resumed_world (derive quiet_env ''in'' ''out'' '''' ''in/a.mid'') \<noteq> None"
    by (simp add: d) (simp add: resumed_world_def)
  have 3: "files resumed_world ''out/a.wav'' = Some [[7, 7]]"
    by (simp add: resumed_world_def)
  from existing_output_untouched[OF 1 2] 3 show ?thesis by (simp add: d)
qed

text \<open>
  C9. With \<open>stereo = False\<close> every \<open>channel_weights\<close> that is a list, empty or not, makes
  \<open>process_wav_files\<close> raise \<open>TypeError\<close> at line 37 (\<^verbatim>\<open>len(channel_weights < 1)\<close>): no list
  passes the validation and no transcoding call is reached. The stereo branch has the
  parenthesis where it belongs.
\<close>

theorem channel_weights_list_raises_TypeError:
  "process_wav_files audio_paths output_of exists sample_rate offset_ms (Some channel_weights)
     False stereo_c0_weights stereo_c1_weights overwrite = Inl (Error ''TypeError'')"
  by (simp add: process_wav_files_def filter_expression_def list_less_int_def)

text \<open>
  C10. \<open>delay_ms\<close> does not reach the body of \<open>capture_performance\<close>: two calls that differ
  in it alone return the same result and leave the same world (the same messages sent at the
  same instants, the same file contents).
\<close>

theorem delay_ms_has_no_effect:
  "capture_performance input_midi_filepath output_audio_filepath output_port_name
     input_audio_device delay_ms num_channels channel_map sample_rate e w
   = capture_performance input_midi_filepath output_audio_filepath output_port_name
       input_audio_device delay_ms' num_channels channel_map sample_rate e w"
  by (simp add: capture_performance_def)

end
